theory Spec2Isabelle
  imports Main
begin

section \<open>KRIHS sentiment crawler: data model\<close>

text \<open>
  The embedding follows \<^verbatim>\<open>pj_krihs_sentiment.py\<close>. A Python \<^verbatim>\<open>str\<close> that may hold
  Korean text is a list of Unicode code points (Python indexes, compares and slices
  strings by code point), written \<open>ustr\<close>. Strings that the program builds from ASCII
  only (dataset keys, URLs, region codes) are HOL strings. Python integers are \<open>int\<close>.
\<close>

type_synonym ustr = "nat list"

type_synonym period = "int \<times> int"

subsection \<open>Month iteration (section 5 of the source)\<close>

text \<open>Python compares tuples lexicographically: \<^verbatim>\<open>(y, m) <= (ey, em)\<close>.\<close>

definition ym_le :: "period \<Rightarrow> period \<Rightarrow> bool" where
  "ym_le a b = (fst a < fst b \<or> (fst a = fst b \<and> snd a \<le> snd b))"

definition ym_gt :: "period \<Rightarrow> period \<Rightarrow> bool" where
  "ym_gt a b = (fst a > fst b \<or> (fst a = fst b \<and> snd a > snd b))"

text \<open>
  \<^verbatim>\<open>
  def month_iter(start_ym, end_ym=None):
      y, m = start_ym
      if end_ym is None:
          t = date.today(); end_ym = (t.year, t.month)
      ey, em = end_ym
      while (y, m) <= (ey, em):
          yield y, m
          m += 1
          if m > 12:
              y += 1
              m = 1
  \<close>
  The generator's loop is \<open>month_loop\<close>; the periods it yields are collected in a list.
  The calendar period of \<^verbatim>\<open>date.today()\<close> is the parameter \<open>today\<close>.
\<close>

function month_loop :: "int \<Rightarrow> int \<Rightarrow> period \<Rightarrow> period list" where
  "month_loop y m e =
     (if ym_le (y, m) e
      then (y, m) # (if m + 1 > 12 then month_loop (y + 1) 1 e else month_loop y (m + 1) e)
      else [])"
  by pat_completeness auto
termination
  by (relation "measures [\<lambda>(y, m, e). nat (fst e - y + 1), \<lambda>(y, m, e). nat (13 - m)]")
     (auto simp: ym_le_def)

declare month_loop.simps [simp del]

definition month_iter :: "period \<Rightarrow> period \<Rightarrow> period option \<Rightarrow> period list" where
  "month_iter today start_ym end_ym =
     (let e = (case end_ym of None \<Rightarrow> today | Some e' \<Rightarrow> e')
      in month_loop (fst start_ym) (snd start_ym) e)"

text \<open>
  \<^verbatim>\<open>
  def next_month(year, month):
      month += 1
      if month > 12:
          year += 1
          month = 1
      return year, month
  \<close>
\<close>

definition next_month :: "int \<Rightarrow> int \<Rightarrow> period" where
  "next_month year month =
     (let month' = month + 1 in if month' > 12 then (year + 1, 1) else (year, month'))"

subsection \<open>Dataset registry and URL builder (section 1 of the source)\<close>

record Dataset =
  path :: string
  default_item :: int

text \<open>The dictionary \<^verbatim>\<open>DATASETS\<close>, in the order it is written; looked up with \<open>map_of\<close>.\<close>

definition DATASETS :: "(string \<times> Dataset) list" where
  "DATASETS =
   [(''market_consume'', \<lparr>path = ''SystemIntro'', default_item = 2\<rparr>),
    (''house_consume'', \<lparr>path = ''Mind_House'', default_item = 7\<rparr>),
    (''house_sale'', \<lparr>path = ''Mind_House_Cur'', default_item = 12\<rparr>),
    (''house_rent'', \<lparr>path = ''Mind_Rent_Cur'', default_item = 14\<rparr>),
    (''land_consume'', \<lparr>path = ''Mind_Land'', default_item = 6\<rparr>)]"

definition BASE :: string where
  "BASE = ''https://kremap.krihs.re.kr/menu2''"

text \<open>
  Every exception of the source is a value. \<open>KeyError\<close> is what \<^verbatim>\<open>DATASETS[dataset_key]\<close>
  raises for a key that is not registered; \<open>TimeoutError\<close> and \<open>PlaywrightError\<close> are what the
  rendering engine raises from \<^verbatim>\<open>page.goto\<close>, \<^verbatim>\<open>page.wait_for_timeout\<close> or a locator.
\<close>

datatype error = KeyError string | TimeoutError | PlaywrightError

text \<open>\<^verbatim>\<open>str(n)\<close> for a Python integer: decimal digits, a minus sign when negative.\<close>

fun nat_digits :: "nat \<Rightarrow> string" where
  "nat_digits n =
     (if n < 10 then [''0123456789'' ! n]
      else nat_digits (n div 10) @ [''0123456789'' ! (n mod 10)])"

declare nat_digits.simps [simp del]

definition str_int :: "int \<Rightarrow> string" where
  "str_int i = (if i < 0 then CHR ''-'' # nat_digits (nat (- i)) else nat_digits (nat i))"

text \<open>
  \<^verbatim>\<open>f"{int(month):02d}"\<close>: the decimal string, padded with zeros after the sign to width
  two. A negative number already has two characters, so only a single digit is padded.
\<close>

definition format_02d :: "int \<Rightarrow> string" where
  "format_02d i = (let s = str_int i in if length s < 2 then CHR ''0'' # s else s)"

text \<open>
  CPython renders an integer as decimal text only when it has at most 4300 digits (the
  default limit of \<^verbatim>\<open>sys.set_int_max_str_digits\<close>); for a longer one \<^verbatim>\<open>str\<close> and the
  \<^verbatim>\<open>d\<close> format raise \<^verbatim>\<open>ValueError\<close>. \<open>str_int\<close> and \<open>format_02d\<close> are the renderings of the
  integers that are rendered and do not model that exception; \<open>renderable\<close> marks the
  integers on which they are what the source computes.
\<close>

definition renderable :: "int \<Rightarrow> bool" where
  "renderable n = (\<bar>n\<bar> < 10 ^ 4300)"

text \<open>
  \<^verbatim>\<open>urllib.parse.urlencode\<close> of a dictionary of strings: every key and value goes through
  \<^verbatim>\<open>quote_plus\<close> (letters, digits and \<^verbatim>\<open>_.-~\<close> are kept, a space becomes \<^verbatim>\<open>+\<close>, any
  other byte becomes \<^verbatim>\<open>%XX\<close> in upper-case hexadecimal), and the \<^verbatim>\<open>key=value\<close> pairs are
  joined with \<^verbatim>\<open>&\<close> in the dictionary's insertion order.
\<close>

definition always_safe :: "char \<Rightarrow> bool" where
  "always_safe c =
     (c \<in> set ''ABCDEFGHIJKLMNOPQRSTUVWXYZabcdefghijklmnopqrstuvwxyz0123456789_.-~'')"

definition quote_char :: "char \<Rightarrow> string" where
  "quote_char c =
     (if always_safe c then [c]
      else if c = CHR '' '' then ''+''
      else [CHR ''%'', ''0123456789ABCDEF'' ! (of_char c div 16),
            ''0123456789ABCDEF'' ! (of_char c mod 16)])"

definition quote_plus :: "string \<Rightarrow> string" where
  "quote_plus s = concat (map quote_char s)"

fun join_amp :: "string list \<Rightarrow> string" where
  "join_amp [] = []"
| "join_amp [x] = x"
| "join_amp (x # y # zs) = x @ ''&'' @ join_amp (y # zs)"

definition urlencode :: "(string \<times> string) list \<Rightarrow> string" where
  "urlencode params = join_amp (map (\<lambda>(k, v). quote_plus k @ ''='' @ quote_plus v) params)"

text \<open>
  \<^verbatim>\<open>item_cd or default\<close>: Python's \<^verbatim>\<open>or\<close> takes the right operand when the left one is
  falsy, that is \<^verbatim>\<open>None\<close> or \<^verbatim>\<open>0\<close>.
\<close>

definition item_or :: "int option \<Rightarrow> int \<Rightarrow> int" where
  "item_or item_cd d = (case item_cd of None \<Rightarrow> d | Some c \<Rightarrow> if c = 0 then d else c)"

text \<open>
  \<^verbatim>\<open>
  def build_url(dataset_key, year, month, item_cd=None):
      ds = DATASETS[dataset_key]
      params = {"area_cd": "11", "Gbn": "MONTH", "year": str(year),
                "month": f"{int(month):02d}"}
      if ds.path == "SystemIntro":
          params["jin"] = "Jindan"
      params["item_cd"] = str(item_cd or ds.default_item)
      return f"{BASE}/{ds.path}?{urlencode(params)}"
  \<close>
\<close>

definition build_url :: "string \<Rightarrow> int \<Rightarrow> int \<Rightarrow> int option \<Rightarrow> error + string" where
  "build_url dataset_key y m item_cd =
     (case map_of DATASETS dataset_key of
        None \<Rightarrow> Inl (KeyError dataset_key)
      | Some ds \<Rightarrow>
          let params = [(''area_cd'', ''11''), (''Gbn'', ''MONTH''),
                        (''year'', str_int y), (''month'', format_02d m)];
              params1 = (if path ds = ''SystemIntro'' then params @ [(''jin'', ''Jindan'')]
                         else params);
              params2 = params1 @ [(''item_cd'', str_int (item_or item_cd (default_item ds)))]
          in Inr (BASE @ ''/'' @ path ds @ ''?'' @ urlencode params2))"

subsection \<open>Region directory (section 2 of the source)\<close>

text \<open>
  \<^verbatim>\<open>SEOUL_GU_MAP\<close>: the district name, as code points, to its region code and alias.
\<close>

definition SEOUL_GU_MAP :: "(ustr \<times> string \<times> string) list" where
  "SEOUL_GU_MAP =
   [([0xC885, 0xB85C, 0xAD6C], (''11110'', ''jongro'')),
    ([0xC911, 0xAD6C], (''11140'', ''jung'')),
    ([0xC6A9, 0xC0B0, 0xAD6C], (''11170'', ''yongsan'')),
    ([0xC131, 0xB3D9, 0xAD6C], (''11200'', ''seongdong'')),
    ([0xAD11, 0xC9C4, 0xAD6C], (''11215'', ''gwangjin'')),
    ([0xB3D9, 0xB300, 0xBB38, 0xAD6C], (''11230'', ''dongdaemun'')),
    ([0xC911, 0xB791, 0xAD6C], (''11260'', ''jungrang'')),
    ([0xC131, 0xBD81, 0xAD6C], (''11290'', ''seongbuk'')),
    ([0xAC15, 0xBD81, 0xAD6C], (''11305'', ''gangbok'')),
    ([0xB3C4, 0xBD09, 0xAD6C], (''11320'', ''dobong'')),
    ([0xB178, 0xC6D0, 0xAD6C], (''11350'', ''nowon'')),
    ([0xC740, 0xD3C9, 0xAD6C], (''11380'', ''eunpyeung'')),
    ([0xC11C, 0xB300, 0xBB38, 0xAD6C], (''11410'', ''seodaemun'')),
    ([0xB9C8, 0xD3EC, 0xAD6C], (''11440'', ''mapo'')),
    ([0xC591, 0xCC9C, 0xAD6C], (''11470'', ''yangcheon'')),
    ([0xAC15, 0xC11C, 0xAD6C], (''11500'', ''gangseo'')),
    ([0xAD6C, 0xB85C, 0xAD6C], (''11530'', ''guro'')),
    ([0xAE08, 0xCC9C, 0xAD6C], (''11545'', ''geumcheon'')),
    ([0xC601, 0xB4F1, 0xD3EC, 0xAD6C], (''11560'', ''yeongdeungpo'')),
    ([0xB3D9, 0xC791, 0xAD6C], (''11590'', ''dongjak'')),
    ([0xAD00, 0xC545, 0xAD6C], (''11620'', ''gwanak'')),
    ([0xC11C, 0xCD08, 0xAD6C], (''11650'', ''seocho'')),
    ([0xAC15, 0xB0A8, 0xAD6C], (''11680'', ''gangnam'')),
    ([0xC1A1, 0xD30C, 0xAD6C], (''11710'', ''songpa'')),
    ([0xAC15, 0xB3D9, 0xAD6C], (''11740'', ''gangdong''))]"

subsection \<open>Icon scorer (section 3 of the source)\<close>

text \<open>
  The three phase words and the suffix of the step pattern, as code points:
  contraction U+C218 U+CD95, expansion U+D655 U+C7A5, stability U+C548 U+C815,
  and the suffix U+B2E8 U+ACC4. In the quoted source they are written \<^verbatim>\<open><contraction>\<close>,
  \<^verbatim>\<open><expansion>\<close>, \<^verbatim>\<open><stability>\<close> and \<^verbatim>\<open><step>\<close>; the header caption
  U+C9C0 U+C5ED U+BA85 is written \<^verbatim>\<open><caption>\<close>.
\<close>

definition contraction :: ustr where "contraction = [0xC218, 0xCD95]"
definition expansion :: ustr where "expansion = [0xD655, 0xC7A5]"
definition stability :: ustr where "stability = [0xC548, 0xC815]"

text \<open>\<^verbatim>\<open>alt_text.replace(" ", "")\<close> removes every U+0020, wherever it stands, and nothing else.\<close>

definition replace_space :: "ustr \<Rightarrow> ustr" where
  "replace_space s = filter (\<lambda>c. c \<noteq> 0x20) s"

definition startswith :: "ustr \<Rightarrow> ustr \<Rightarrow> bool" where
  "startswith s p = (take (length p) s = p)"

text \<open>
  In a Python 3 pattern over \<^verbatim>\<open>str\<close>, \<^verbatim>\<open>\d\<close> matches every Unicode decimal digit, not only
  \<^verbatim>\<open>0-9\<close>, and \<^verbatim>\<open>int\<close> reads each of them as its digit value. The decimal digits come in
  blocks of ten consecutive code points; \<open>decimal_zeros\<close> lists the digit zero of every
  block (Unicode 14, the table of CPython 3.11), ASCII first.
\<close>

definition decimal_zeros :: "nat list" where
  "decimal_zeros =
   [0x30, 0x660, 0x6F0, 0x7C0, 0x966, 0x9E6, 0xA66, 0xAE6,
    0xB66, 0xBE6, 0xC66, 0xCE6, 0xD66, 0xDE6, 0xE50, 0xED0,
    0xF20, 0x1040, 0x1090, 0x17E0, 0x1810, 0x1946, 0x19D0, 0x1A80,
    0x1A90, 0x1B50, 0x1BB0, 0x1C40, 0x1C50, 0xA620, 0xA8D0, 0xA900,
    0xA9D0, 0xA9F0, 0xAA50, 0xABF0, 0xFF10, 0x104A0, 0x10D30, 0x11066,
    0x110F0, 0x11136, 0x111D0, 0x112F0, 0x11450, 0x114D0, 0x11650, 0x116C0,
    0x11730, 0x118E0, 0x11950, 0x11C50, 0x11D50, 0x11DA0, 0x16A60, 0x16AC0,
    0x16B50, 0x1D7CE, 0x1D7D8, 0x1D7E2, 0x1D7EC, 0x1D7F6, 0x1E140, 0x1E2F0,
    0x1E950, 0x1FBF0]"

definition decimal_value :: "nat \<Rightarrow> nat option" where
  "decimal_value c =
     (case find (\<lambda>z. z \<le> c \<and> c < z + 10) decimal_zeros of
        None \<Rightarrow> None
      | Some z \<Rightarrow> Some (c - z))"

text \<open>
  \<^verbatim>\<open>re.search(r"([+-])(\d)<step>", alt)\<close>: the leftmost position where a sign, one decimal
  digit and the two-character suffix follow one another; the result is the two groups.
\<close>

fun re_search :: "ustr \<Rightarrow> (nat \<times> nat) option" where
  "re_search (g1 # g2 # t1 # t2 # rest) =
     (if (g1 = 0x2B \<or> g1 = 0x2D) \<and> decimal_value g2 \<noteq> None \<and> t1 = 0xB2E8 \<and> t2 = 0xACC4
      then Some (g1, g2)
      else re_search (g2 # t1 # t2 # rest))"
| "re_search _ = None"

text \<open>
  \<^verbatim>\<open>
  def score_weather(alt_text):
      if not alt_text:
          return None
      alt = alt_text.replace(" ", "")
      if alt.startswith("<contraction>"):   phase = "<contraction>"
      elif alt.startswith("<expansion>"): phase = "<expansion>"
      elif alt.startswith("<stability>"): phase = "<stability>"
      else:                        phase = None
      m = re.search(r"([+-])(\d)<step>", alt)
      if m:
          sign = -1 if m.group(1) == "-" else 1
          step = int(m.group(2))
      else:
          sign = 0
          step = 0
      if phase == "<contraction>": return -(step + 1)
      if phase == "<expansion>": return step + 1
      if phase == "<stability>": return sign * step
      return None
  \<close>
  \<^verbatim>\<open>int(m.group(2))\<close> cannot fail: the group matched \<^verbatim>\<open>\d\<close>.
\<close>

definition score_weather :: "ustr \<Rightarrow> int option" where
  "score_weather alt_text =
     (if alt_text = [] then None
      else
        let alt = replace_space alt_text;
            phase = (if startswith alt contraction then Some contraction
                     else if startswith alt expansion then Some expansion
                     else if startswith alt stability then Some stability
                     else None);
            (sign, step) =
              (case re_search alt of
                 Some (g1, g2) \<Rightarrow>
                   (if g1 = 0x2D then - 1 else 1,
                    case decimal_value g2 of Some v \<Rightarrow> int v | None \<Rightarrow> 0)
               | None \<Rightarrow> (0, 0))
        in if phase = Some contraction then Some (- (step + 1))
           else if phase = Some expansion then Some (step + 1)
           else if phase = Some stability then Some (sign * step)
           else None)"

subsection \<open>Table extraction (section 4 of the source)\<close>

text \<open>
  The rendered page is abstracted as what the locators of the source read from it:
  the tables matched by \<^verbatim>\<open>table[id*='GridView']\<close> in document order, each a list of its
  \<^verbatim>\<open>tr\<close> rows, each row the inner texts of its \<^verbatim>\<open>td\<close> cells and the \<^verbatim>\<open>alt\<close> attributes of
  its \<^verbatim>\<open>img\<close> elements (\<open>None\<close> for an image without the attribute).
\<close>

record row_elem =
  tds :: "ustr list"
  imgs :: "ustr option list"

type_synonym table_elem = "row_elem list"

type_synonym page = "table_elem list"

text \<open>The value stored per region: \<^verbatim>\<open>{"weather": weather_alt, "mom": mom_alt}\<close>.\<close>

record icons =
  weather :: ustr
  mom :: ustr

text \<open>
  \<^verbatim>\<open>str.strip()\<close> removes leading and trailing white space, the code points for which
  \<^verbatim>\<open>str.isspace\<close> holds.
\<close>

definition isspace :: "nat \<Rightarrow> bool" where
  "isspace c =
     ((0x09 \<le> c \<and> c \<le> 0x0D) \<or> (0x1C \<le> c \<and> c \<le> 0x20) \<or> c = 0x85 \<or> c = 0xA0 \<or>
      c = 0x1680 \<or> (0x2000 \<le> c \<and> c \<le> 0x200A) \<or> c = 0x2028 \<or> c = 0x2029 \<or>
      c = 0x202F \<or> c = 0x205F \<or> c = 0x3000)"

definition strip :: "ustr \<Rightarrow> ustr" where
  "strip s = rev (dropWhile isspace (rev (dropWhile isspace s)))"

text \<open>The header caption that marks a heading row: U+C9C0 U+C5ED U+BA85.\<close>

definition header_caption :: ustr where
  "header_caption = [0xC9C0, 0xC5ED, 0xBA85]"

text \<open>
  A Python dictionary keeps insertion order; assigning to a key that is present
  replaces the value where the key stands.
\<close>

fun dict_set :: "('k \<times> 'v) list \<Rightarrow> 'k \<Rightarrow> 'v \<Rightarrow> ('k \<times> 'v) list" where
  "dict_set [] k v = [(k, v)]"
| "dict_set ((k', v') # d) k v =
     (if k' = k then (k, v) # d else (k', v') # dict_set d k v)"

text \<open>
  \<^verbatim>\<open>max(range(len(sizes)), key=lambda i: sizes[i])\<close>: Python's \<^verbatim>\<open>max\<close> keeps the
  element it holds unless a later one has a strictly greater key.
\<close>

fun max_by_key :: "(nat \<Rightarrow> nat) \<Rightarrow> nat list \<Rightarrow> nat \<Rightarrow> nat" where
  "max_by_key f [] best = best"
| "max_by_key f (i # rest) best =
     (if f i > f best then max_by_key f rest i else max_by_key f rest best)"

text \<open>
  The body of the row loop; \<open>None\<close> is \<^verbatim>\<open>continue\<close>.
  \<^verbatim>\<open>
      tds = rows.nth(i).locator("td")
      if tds.count() < 2: continue
      region = tds.nth(0).inner_text().strip()
      if not region or region == "<caption>": continue
      imgs = rows.nth(i).locator("img")
      alts = []
      for j in range(imgs.count()):
          alt = (imgs.nth(j).get_attribute("alt") or "").strip()
          if alt: alts.append(alt)
      weather_alt = alts[0] if len(alts) >= 1 else ""
      mom_alt = alts[-1] if len(alts) >= 2 else ""
      data[region] = {"weather": weather_alt, "mom": mom_alt}
  \<close>
\<close>

definition row_alts :: "row_elem \<Rightarrow> ustr list" where
  "row_alts r =
     filter (\<lambda>alt. alt \<noteq> [])
       (map (\<lambda>a. strip (case a of None \<Rightarrow> [] | Some t \<Rightarrow> t)) (imgs r))"

definition parse_row :: "row_elem \<Rightarrow> (ustr \<times> icons) option" where
  "parse_row r =
     (case tds r of
        td0 # td1 # others \<Rightarrow>
          let region = strip td0 in
          if region = [] \<or> region = header_caption then None
          else
            let alts = row_alts r;
                weather_alt = (case alts of [] \<Rightarrow> [] | a # as \<Rightarrow> a);
                mom_alt = (if length alts \<ge> 2 then last alts else [])
            in Some (region, \<lparr>weather = weather_alt, mom = mom_alt\<rparr>)
      | _ \<Rightarrow> None)"

fun rows_loop :: "row_elem list \<Rightarrow> (ustr \<times> icons) list \<Rightarrow> (ustr \<times> icons) list" where
  "rows_loop [] data = data"
| "rows_loop (r # rs) data =
     rows_loop rs (case parse_row r of None \<Rightarrow> data | Some (region, v) \<Rightarrow> dict_set data region v)"

text \<open>
  \<^verbatim>\<open>
  def parse_table_icons(page):
      data = {}
      tables = page.locator("table[id*='GridView']")
      if tables.count() == 0:
          return data
      sizes = [tables.nth(i).locator("tr").count() for i in range(tables.count())]
      idx = max(range(len(sizes)), key=lambda i: sizes[i])
      table = tables.nth(idx)
      rows = table.locator("tr")
      for i in range(rows.count()): ...
      return data
  \<close>
  The range is not empty where \<^verbatim>\<open>max\<close> is called, so it starts from index 0.
\<close>

definition select_table :: "page \<Rightarrow> nat" where
  "select_table tables =
     (let sizes = map length tables
      in max_by_key (\<lambda>i. sizes ! i) [1 ..< length sizes] 0)"

definition parse_table_icons :: "page \<Rightarrow> (ustr \<times> icons) list" where
  "parse_table_icons tables =
     (if length tables = 0 then []
      else rows_loop (tables ! select_table tables) [])"

subsection \<open>Collector (section 6 of the source)\<close>

text \<open>One dictionary appended to \<^verbatim>\<open>rows\<close>; the fields are its keys, in order.\<close>

record row =
  row_dataset :: string
  row_item_cd :: int
  row_year :: int
  row_month :: int
  row_region_name :: ustr
  row_region_code :: string
  row_region_alias :: string
  row_weather :: ustr
  row_weather_score :: "int option"
  row_mom :: ustr
  row_url :: string

text \<open>
  What a run does to the outside, in order: the pages it loads and closes and the
  lines it prints.
\<close>

datatype event =
    Goto string
  | PageClose string
  | WarnNoData string int int
  | OkRows string int int nat
  | InfoNoPrior string period
  | InfoLatest string period period period
  | InfoUpToDate string

text \<open>
  The rendering engine: for the URL passed to \<^verbatim>\<open>page.goto\<close>, either the exception raised
  while the page is loaded and read, or the page as the locators see it.
\<close>

type_synonym engine = "string \<Rightarrow> error + page"

text \<open>
  The loop over the extracted table:
  \<^verbatim>\<open>
      for gu_name, v in table.items():
          region_code, alias = SEOUL_GU_MAP.get(gu_name, ("", ""))
          score = score_weather(v.get("weather", ""))
          rows.append({
              "dataset": dataset_key,
              "item_cd": item_cd or DATASETS[dataset_key].default_item,
              "year": y, "month": m,
              "region_name": gu_name, "region_code": region_code, "region_alias": alias,
              "weather": v.get("weather", ""), "weather_score": score,
              "mom": v.get("mom", ""), "url": url,
          })
  \<close>
  The expression \<^verbatim>\<open>item_cd or DATASETS[dataset_key].default_item\<close> reads the registry
  only when the override is falsy, and raises \<open>KeyError\<close> there for a key that is not
  registered. Both keys of \<open>v\<close> are always present, so \<^verbatim>\<open>v.get\<close> returns the stored text.
\<close>

definition registry_default :: "string \<Rightarrow> error + int" where
  "registry_default dataset_key =
     (case map_of DATASETS dataset_key of
        None \<Rightarrow> Inl (KeyError dataset_key)
      | Some ds \<Rightarrow> Inr (default_item ds))"

definition row_item :: "string \<Rightarrow> int option \<Rightarrow> error + int" where
  "row_item dataset_key item_cd =
     (case item_cd of
        None \<Rightarrow> registry_default dataset_key
      | Some c \<Rightarrow> if c = 0 then registry_default dataset_key else Inr c)"

definition make_row ::
  "string \<Rightarrow> int \<Rightarrow> int \<Rightarrow> int \<Rightarrow> string \<Rightarrow> ustr \<times> icons \<Rightarrow> row" where
  "make_row dataset_key item y m u entry =
     (let gu_name = fst entry; v = snd entry;
          (region_code, alias) =
            (case map_of SEOUL_GU_MAP gu_name of None \<Rightarrow> ([], []) | Some ca \<Rightarrow> ca);
          score = score_weather (weather v)
      in \<lparr>row_dataset = dataset_key, row_item_cd = item, row_year = y, row_month = m,
          row_region_name = gu_name, row_region_code = region_code,
          row_region_alias = alias, row_weather = weather v, row_weather_score = score,
          row_mom = mom v, row_url = u\<rparr>)"

fun table_rows ::
  "string \<Rightarrow> int option \<Rightarrow> int \<Rightarrow> int \<Rightarrow> string \<Rightarrow> (ustr \<times> icons) list \<Rightarrow> error + row list" where
  "table_rows dataset_key item_cd y m u [] = Inr []"
| "table_rows dataset_key item_cd y m u (entry # entries) =
     (case row_item dataset_key item_cd of
        Inl e \<Rightarrow> Inl e
      | Inr item \<Rightarrow>
          (case table_rows dataset_key item_cd y m u entries of
             Inl e \<Rightarrow> Inl e
           | Inr rs \<Rightarrow> Inr (make_row dataset_key item y m u entry # rs)))"

text \<open>
  \<^verbatim>\<open>
      for y, m in month_iter(start_ym, end_ym):
          url = build_url(dataset_key, y, m, item_cd=item_cd)
          page = ctx.new_page()
          try:
              page.goto(url, wait_until="domcontentloaded", timeout=60000)
              page.wait_for_timeout(1500)
              table = parse_table_icons(page)
              if not table:
                  print(f"[WARN] No data: {dataset_key} {y}-{m:02d}")
              for gu_name, v in table.items():
                  ...
                  rows.append({...})
              print(f"[OK] {dataset_key} {y}-{m:02d} rows={len(table)}")
          finally:
              page.close()
  \<close>
  The \<^verbatim>\<open>try\<close> has a \<^verbatim>\<open>finally\<close> and no \<^verbatim>\<open>except\<close>: an exception closes the page and
  leaves the loop and the function. The result of the loop is the trace and either the
  exception or the accumulated rows.
\<close>

fun collect_loop ::
  "engine \<Rightarrow> string \<Rightarrow> int option \<Rightarrow> period list \<Rightarrow> row list \<Rightarrow> event list \<times> (error + row list)" where
  "collect_loop eng dataset_key item_cd [] rows = ([], Inr rows)"
| "collect_loop eng dataset_key item_cd (p # ps) rows =
     (case build_url dataset_key (fst p) (snd p) item_cd of
        Inl e \<Rightarrow> ([], Inl e)
      | Inr u \<Rightarrow>
          (case eng u of
             Inl e \<Rightarrow> ([Goto u, PageClose u], Inl e)
           | Inr pg \<Rightarrow>
               let table = parse_table_icons pg;
                   warn = (if table = [] then [WarnNoData dataset_key (fst p) (snd p)] else [])
               in (case table_rows dataset_key item_cd (fst p) (snd p) u table of
                     Inl e \<Rightarrow> (Goto u # warn @ [PageClose u], Inl e)
                   | Inr new_rows \<Rightarrow>
                       let rest = collect_loop eng dataset_key item_cd ps (rows @ new_rows)
                       in (Goto u # warn
                             @ [OkRows dataset_key (fst p) (snd p) (length table), PageClose u]
                             @ fst rest,
                           snd rest))))"

text \<open>
  \<^verbatim>\<open>collect\<close> runs the loop over \<^verbatim>\<open>month_iter(start_ym, end_ym)\<close> from an empty list and
  returns the rows. The optional file export and the upsert that follow the loop read
  \<^verbatim>\<open>rows\<close> and do not change what is returned; they are outside this model.
\<close>

definition collect ::
  "period \<Rightarrow> engine \<Rightarrow> string \<Rightarrow> period \<Rightarrow> period option \<Rightarrow> int option
   \<Rightarrow> event list \<times> (error + row list)" where
  "collect today eng dataset_key start_ym end_ym item_cd =
     collect_loop eng dataset_key item_cd (month_iter today start_ym end_ym) []"

subsection \<open>Incremental collection (section 7 of the source)\<close>

text \<open>
  \<^verbatim>\<open>
  def collect_incremental(dataset_key, default_start_ym=(2015, 1), end_ym=None, ...):
      latest = get_latest_ym_from_supabase(dataset_key, table_name=supabase_table)
      if end_ym is None:
          t = date.today(); end_ym = (t.year, t.month)
      if latest is None:
          start_ym = default_start_ym
          print(...)
      else:
          sy, sm = next_month(*latest)
          start_ym = (sy, sm)
          print(...)
      if start_ym > end_ym:
          print(...)
          return []
      rows = collect(dataset_key=dataset_key, start_ym=start_ym, end_ym=end_ym, ...)
      return rows
  \<close>
  \<open>latest\<close> is the answer of the storage gateway (\<^verbatim>\<open>get_latest_ym_from_supabase\<close> turns
  every failure of the gateway into \<^verbatim>\<open>None\<close>).
\<close>

definition collect_incremental ::
  "period \<Rightarrow> period option \<Rightarrow> engine \<Rightarrow> string \<Rightarrow> period \<Rightarrow> period option \<Rightarrow> int option
   \<Rightarrow> event list \<times> (error + row list)" where
  "collect_incremental today latest eng dataset_key default_start_ym end_ym item_cd =
     (let end_ym' = (case end_ym of None \<Rightarrow> today | Some e \<Rightarrow> e);
          start_ym = (case latest of None \<Rightarrow> default_start_ym
                      | Some l \<Rightarrow> next_month (fst l) (snd l));
          info = (case latest of None \<Rightarrow> InfoNoPrior dataset_key start_ym
                  | Some l \<Rightarrow> InfoLatest dataset_key l start_ym end_ym')
      in if ym_gt start_ym end_ym' then ([info, InfoUpToDate dataset_key], Inr [])
         else let run = collect today eng dataset_key start_ym (Some end_ym') item_cd
              in (info # fst run, snd run))"

section \<open>Specification-side notions\<close>

subsection \<open>Periods as a calendar line\<close>

text \<open>
  A period is valid when its month is one of 1..12. The valid periods are numbered
  along the calendar: \<open>ym_index\<close> counts months, \<open>ym_of_index\<close> is its inverse. The
  ascending sequence of consecutive periods from \<open>s\<close> through \<open>e\<close> inclusive is the image
  of the interval of indices \<open>[ym_index s .. ym_index e]\<close>.
\<close>

definition valid_period :: "period \<Rightarrow> bool" where
  "valid_period p = (1 \<le> snd p \<and> snd p \<le> 12)"

definition ym_index :: "period \<Rightarrow> int" where
  "ym_index p = 12 * fst p + (snd p - 1)"

definition ym_of_index :: "int \<Rightarrow> period" where
  "ym_of_index i = (i div 12, i mod 12 + 1)"

subsection \<open>The URL shape as the specification writes it\<close>

text \<open>
  The specification's fetch URL:
  \<^verbatim>\<open><base>/<dataset-path>?area_cd=11&Gbn=MONTH&year=<Y>&month=<MM>&item_cd=<code>[&jin=Jindan]\<close>,
  the marker last and only for the composite dataset.
\<close>

definition spec_url_shape :: "string \<Rightarrow> string \<Rightarrow> string \<Rightarrow> string \<Rightarrow> bool \<Rightarrow> string" where
  "spec_url_shape dataset_path yr mm code composite =
     BASE @ ''/'' @ dataset_path @ ''?area_cd=11&Gbn=MONTH&year='' @ yr @ ''&month='' @ mm
       @ ''&item_cd='' @ code @ (if composite then ''&jin=Jindan'' else [])"

subsection \<open>The icon scorer as the specification describes it\<close>

text \<open>
  The three phases, the leading phase token of a descriptor, and the step pattern: a
  sign, one decimal digit and the suffix, at position \<open>i\<close> of the text. The signed
  magnitude is read at the leftmost position where the pattern stands; sign and
  magnitude are both 0 when it stands nowhere.
\<close>

datatype phase = Contraction | Expansion | Stability

definition leading_phase :: "ustr \<Rightarrow> phase option" where
  "leading_phase t =
     (if startswith t contraction then Some Contraction
      else if startswith t expansion then Some Expansion
      else if startswith t stability then Some Stability
      else None)"

definition pattern_at :: "ustr \<Rightarrow> nat \<Rightarrow> bool" where
  "pattern_at t i =
     (i + 3 < length t \<and> (t ! i = 0x2B \<or> t ! i = 0x2D) \<and> decimal_value (t ! (i + 1)) \<noteq> None
      \<and> t ! (i + 2) = 0xB2E8 \<and> t ! (i + 3) = 0xACC4)"

definition first_pattern :: "ustr \<Rightarrow> nat option" where
  "first_pattern t = find (pattern_at t) [0 ..< length t]"

definition digit_of :: "nat \<Rightarrow> int" where
  "digit_of c = (case decimal_value c of Some v \<Rightarrow> int v | None \<Rightarrow> 0)"

definition signed_magnitude :: "ustr \<Rightarrow> int \<times> int" where
  "signed_magnitude t =
     (case first_pattern t of
        None \<Rightarrow> (0, 0)
      | Some i \<Rightarrow> (if t ! i = 0x2D then - 1 else 1, digit_of (t ! (i + 1))))"

text \<open>
  The score rule: contraction is \<open>-(N + 1)\<close>, expansion is \<open>N + 1\<close>, stability is
  \<open>sign * N\<close>.
\<close>

definition score_rule :: "phase \<Rightarrow> int \<times> int \<Rightarrow> int" where
  "score_rule ph sm =
     (case ph of
        Contraction \<Rightarrow> - (snd sm + 1)
      | Expansion \<Rightarrow> snd sm + 1
      | Stability \<Rightarrow> fst sm * snd sm)"

definition classify_and_score :: "ustr \<Rightarrow> int option" where
  "classify_and_score t =
     (case leading_phase t of
        None \<Rightarrow> None
      | Some ph \<Rightarrow> Some (score_rule ph (signed_magnitude t)))"

text \<open>
  The scorer in the specification's words: strip white space (leading and trailing, as
  \<^verbatim>\<open>strip\<close> does); empty is unknown; otherwise classify and score.
\<close>

definition spec_score_weather :: "ustr \<Rightarrow> int option" where
  "spec_score_weather s =
     (let t = strip s in if t = [] then None else classify_and_score t)"

subsection \<open>Reading a run\<close>

text \<open>
  The URLs a trace loads and the URLs whose page it closes, in order; the trace and the
  rows of one period whose page loads.
\<close>

fun visited :: "event list \<Rightarrow> string list" where
  "visited [] = []"
| "visited (Goto u # tr) = u # visited tr"
| "visited (ev # tr) = visited tr"

fun closed :: "event list \<Rightarrow> string list" where
  "closed [] = []"
| "closed (PageClose u # tr) = u # closed tr"
| "closed (ev # tr) = closed tr"

definition period_url :: "Dataset \<Rightarrow> int option \<Rightarrow> period \<Rightarrow> string" where
  "period_url ds item_cd p =
     BASE @ ''/'' @ path ds @ ''?area_cd=11&Gbn=MONTH&year='' @ str_int (fst p)
       @ ''&month='' @ format_02d (snd p)
       @ (if path ds = ''SystemIntro'' then ''&jin=Jindan'' else [])
       @ ''&item_cd='' @ str_int (item_or item_cd (default_item ds))"

definition period_rows ::
  "string \<Rightarrow> Dataset \<Rightarrow> int option \<Rightarrow> period \<Rightarrow> page \<Rightarrow> row list" where
  "period_rows dataset_key ds item_cd p pg =
     map (make_row dataset_key (item_or item_cd (default_item ds)) (fst p) (snd p)
            (period_url ds item_cd p))
       (parse_table_icons pg)"

definition period_trace ::
  "string \<Rightarrow> Dataset \<Rightarrow> int option \<Rightarrow> period \<Rightarrow> page \<Rightarrow> event list" where
  "period_trace dataset_key ds item_cd p pg =
     Goto (period_url ds item_cd p)
       # (if parse_table_icons pg = [] then [WarnNoData dataset_key (fst p) (snd p)] else [])
       @ [OkRows dataset_key (fst p) (snd p) (length (parse_table_icons pg)),
          PageClose (period_url ds item_cd p)]"

text \<open>The page the engine returns for the period's URL; the empty page when it fails.\<close>

definition page_of :: "engine \<Rightarrow> Dataset \<Rightarrow> int option \<Rightarrow> period \<Rightarrow> page" where
  "page_of eng ds item_cd p =
     (case eng (period_url ds item_cd p) of Inl e \<Rightarrow> [] | Inr pg \<Rightarrow> pg)"

definition loads :: "engine \<Rightarrow> Dataset \<Rightarrow> int option \<Rightarrow> period \<Rightarrow> bool" where
  "loads eng ds item_cd p = (case eng (period_url ds item_cd p) of Inl e \<Rightarrow> False | Inr pg \<Rightarrow> True)"

text \<open>
  The window the incremental planner decides on: from the default start when the
  gateway reports no prior period, from the successor of the prior period otherwise,
  through the end period (the current period when none is given).
\<close>

definition planned_window ::
  "period \<Rightarrow> period option \<Rightarrow> period \<Rightarrow> period option \<Rightarrow> period list" where
  "planned_window today latest default_start_ym end_ym =
     month_iter today
       (case latest of None \<Rightarrow> default_start_ym | Some l \<Rightarrow> next_month (fst l) (snd l))
       (Some (case end_ym of None \<Rightarrow> today | Some e \<Rightarrow> e))"

subsection \<open>Sample pages and engines\<close>

text \<open>
  A page with one grid table of a heading row and one district row (Gangnam-gu, with a
  weather icon and a month-over-month icon), and an engine that times out on the
  February 2024 page of \<^verbatim>\<open>house_rent\<close> and serves the sample page otherwise.
\<close>

definition sample_page :: page where
  "sample_page =
   [[\<lparr>tds = [[0xC9C0, 0xC5ED, 0xBA85], [0x41]], imgs = []\<rparr>,
     \<lparr>tds = [[0xAC15, 0xB0A8, 0xAD6C], [0x31]],
      imgs = [Some [0xC218, 0xCD95, 0x2B, 0x32, 0xB2E8, 0xACC4], Some [0x2191]]\<rparr>]]"

definition flaky_engine :: engine where
  "flaky_engine u =
     (if u = ''https://kremap.krihs.re.kr/menu2/Mind_Rent_Cur?area_cd=11&Gbn=MONTH&year=2024&month=02&item_cd=14''
      then Inl TimeoutError else Inr sample_page)"

subsection \<open>Row extraction as the specification describes it\<close>

text \<open>
  The row rule in the specification's words, with the texts taken as they are: a row
  with at least two cells, whose first cell text is not empty and is not the header
  caption, gives the first cell text as region name; the alt attributes that are
  present and not empty are collected in document order; the first is the weather
  descriptor; the last is the month-over-month descriptor when there are at least
  two, which is empty otherwise.
\<close>

definition spec_parse_row :: "row_elem \<Rightarrow> (ustr \<times> icons) option" where
  "spec_parse_row r =
     (case tds r of
        td0 # td1 # others \<Rightarrow>
          if td0 = [] \<or> td0 = header_caption then None
          else
            let alts = filter (\<lambda>alt. alt \<noteq> [])
                         (map (\<lambda>a. case a of None \<Rightarrow> [] | Some t \<Rightarrow> t) (imgs r))
            in Some (td0, \<lparr>weather = (case alts of [] \<Rightarrow> [] | a # as \<Rightarrow> a),
                           mom = (if length alts \<ge> 2 then last alts else [])\<rparr>)
      | _ \<Rightarrow> None)"

text \<open>
  Sample rows: a district row whose first image has a blank alt text, followed by a
  weather icon and a month-over-month icon; the same row with padded texts; a row
  with a single icon; a row whose images carry no text; a row with one cell; a heading
  row.
\<close>

definition blank_alt_row :: row_elem where
  "blank_alt_row =
     \<lparr>tds = [[0xAC15, 0xB0A8, 0xAD6C], [0x31]],
      imgs = [Some [0x20], Some [0xC218, 0xCD95, 0x2B, 0x32, 0xB2E8, 0xACC4], Some [0x2191]]\<rparr>"

definition padded_row :: row_elem where
  "padded_row =
     \<lparr>tds = [[0x20, 0xAC15, 0xB0A8, 0xAD6C, 0x0A], [0x31]],
      imgs = [None, Some [0x20, 0xC218, 0xCD95, 0x2B, 0x32, 0xB2E8, 0xACC4], Some [],
              Some [0x2191, 0x20]]\<rparr>"

definition single_icon_row :: row_elem where
  "single_icon_row =
     \<lparr>tds = [[0xAC15, 0xB0A8, 0xAD6C], [0x31]],
      imgs = [Some [0xC218, 0xCD95, 0x2B, 0x32, 0xB2E8, 0xACC4]]\<rparr>"

definition no_icon_row :: row_elem where
  "no_icon_row = \<lparr>tds = [[0xAC15, 0xB0A8, 0xAD6C], [0x31]], imgs = [Some [0x20], None]\<rparr>"

definition one_cell_row :: row_elem where
  "one_cell_row = \<lparr>tds = [[0xAC15, 0xB0A8, 0xAD6C]], imgs = [Some [0x2191]]\<rparr>"

definition heading_row :: row_elem where
  "heading_row = \<lparr>tds = [[0xC9C0, 0xC5ED, 0xBA85], [0x41]], imgs = []\<rparr>"

section \<open>Period sequencing\<close>

lemma ym_of_index_inverse: "valid_period p \<Longrightarrow> ym_of_index (ym_index p) = p"
  by (cases p) (auto simp: ym_of_index_def ym_index_def valid_period_def)

lemma ym_le_index:
  "valid_period a \<Longrightarrow> valid_period b \<Longrightarrow> ym_le a b = (ym_index a \<le> ym_index b)"
  by (auto simp: ym_le_def ym_index_def valid_period_def)

lemma month_loop_upto:
  "valid_period (y, m) \<Longrightarrow> valid_period e \<Longrightarrow>
   month_loop y m e = map ym_of_index [ym_index (y, m) .. ym_index e]"
proof (induction y m e rule: month_loop.induct)
  case (1 y m e)
  show ?case
  proof (cases "ym_le (y, m) e")
    case False
    hence "month_loop y m e = []" by (subst month_loop.simps) simp
    with False 1 show ?thesis by (simp add: ym_le_index)
  next
    case True
    hence le: "ym_index (y, m) \<le> ym_index e" using 1 by (simp add: ym_le_index)
    have first: "ym_of_index (ym_index (y, m)) = (y, m)"
      using 1 by (simp add: ym_of_index_inverse)
    show ?thesis
    proof (cases "m + 1 > 12")
      case True
      hence v: "valid_period (y + 1, 1)"
        and i: "ym_index (y + 1, 1) = ym_index (y, m) + 1"
        using 1(3) by (auto simp: valid_period_def ym_index_def)
      have "month_loop y m e = (y, m) # month_loop (y + 1) 1 e"
        using \<open>ym_le (y, m) e\<close> True by (subst month_loop.simps) simp
      also have "\<dots> = (y, m) # map ym_of_index [ym_index (y, m) + 1 .. ym_index e]"
        using 1(1)[OF \<open>ym_le (y, m) e\<close> True v 1(4)] i by simp
      also have "\<dots> = map ym_of_index [ym_index (y, m) .. ym_index e]"
        using le first by (subst (2) upto_rec1) simp_all
      finally show ?thesis .
    next
      case False
      hence v: "valid_period (y, m + 1)"
        and i: "ym_index (y, m + 1) = ym_index (y, m) + 1"
        using 1(3) by (auto simp: valid_period_def ym_index_def)
      have "month_loop y m e = (y, m) # month_loop y (m + 1) e"
        using \<open>ym_le (y, m) e\<close> False by (subst month_loop.simps) simp
      also have "\<dots> = (y, m) # map ym_of_index [ym_index (y, m) + 1 .. ym_index e]"
        using 1(2)[OF \<open>ym_le (y, m) e\<close> False v 1(4)] i by simp
      also have "\<dots> = map ym_of_index [ym_index (y, m) .. ym_index e]"
        using le first by (subst (2) upto_rec1) simp_all
      finally show ?thesis .
    qed
  qed
qed

lemma month_loop_gt: "ym_gt (y, m) e \<Longrightarrow> month_loop y m e = []"
  by (subst month_loop.simps) (auto simp: ym_gt_def ym_le_def)

lemma month_iter_upto:
  "valid_period s \<Longrightarrow> valid_period e \<Longrightarrow>
   month_iter today s (Some e) = map ym_of_index [ym_index s .. ym_index e]"
  using month_loop_upto [of "fst s" "snd s" e] by (simp add: month_iter_def)

lemma month_iter_gt: "ym_gt s e \<Longrightarrow> month_iter today s (Some e) = []"
  using month_loop_gt [of "fst s" "snd s" e] by (simp add: month_iter_def)

lemma month_iter_example:
  "month_iter today (2024, 11) (Some (2025, 2)) = [(2024, 11), (2024, 12), (2025, 1), (2025, 2)]"
  by (simp add: month_iter_def ym_le_def month_loop.simps)

lemma next_month_valid:
  "valid_period (y, m) \<Longrightarrow>
   valid_period (next_month y m) \<and> ym_index (next_month y m) = ym_index (y, m) + 1"
  by (auto simp: next_month_def valid_period_def ym_index_def Let_def)

text \<open>
  C6. For valid periods \<open>s\<close> and \<open>e\<close>, \<open>month_iter s e\<close> is the ascending sequence of the
  consecutive periods from \<open>s\<close> through \<open>e\<close> inclusive (the periods whose calendar index
  runs over \<open>[ym_index s .. ym_index e]\<close>, where the index determines the period); it is
  empty when \<open>s > e\<close>; an omitted end is the current period; the sequence from (2024, 11)
  to (2025, 2) is the four periods of the specification. \<open>next_month\<close> of a valid period
  is the valid period with the next index, the year rolls forward after month 12, and
  the successors of (2024, 12) and (2024, 5) are (2025, 1) and (2024, 6).
\<close>

theorem period_sequencing:
  "(valid_period s \<and> valid_period e \<longrightarrow>
      month_iter today s (Some e) = map ym_of_index [ym_index s .. ym_index e]
      \<and> ym_of_index (ym_index s) = s \<and> ym_of_index (ym_index e) = e)
   \<and> (ym_gt s e \<longrightarrow> month_iter today s (Some e) = [])
   \<and> month_iter today s None = month_iter today s (Some today)
   \<and> month_iter today (2024, 11) (Some (2025, 2))
       = [(2024, 11), (2024, 12), (2025, 1), (2025, 2)]
   \<and> (valid_period (y, m) \<longrightarrow>
        valid_period (next_month y m) \<and> ym_index (next_month y m) = ym_index (y, m) + 1)
   \<and> next_month y 12 = (y + 1, 1)
   \<and> next_month 2024 12 = (2025, 1) \<and> next_month 2024 5 = (2024, 6)"
proof -
  have a: "valid_period s \<and> valid_period e \<longrightarrow>
      month_iter today s (Some e) = map ym_of_index [ym_index s .. ym_index e]
      \<and> ym_of_index (ym_index s) = s \<and> ym_of_index (ym_index e) = e"
    by (simp add: month_iter_upto ym_of_index_inverse)
  have b: "ym_gt s e \<longrightarrow> month_iter today s (Some e) = []"
    by (simp add: month_iter_gt)
  have c: "month_iter today s None = month_iter today s (Some today)"
    by (simp add: month_iter_def)
  have d: "valid_period (y, m) \<longrightarrow>
        valid_period (next_month y m) \<and> ym_index (next_month y m) = ym_index (y, m) + 1"
    using next_month_valid by blast
  have e: "next_month y 12 = (y + 1, 1) \<and> next_month 2024 12 = (2025, 1)
        \<and> next_month 2024 5 = (2024, 6)"
    by (simp add: next_month_def)
  from a b c d e month_iter_example [of today] show ?thesis by blast
qed

theorem period_sequencing_witness:
  "valid_period (2024, 11) \<and> valid_period (2025, 2)
   \<and> month_iter (2025, 6) (2024, 11) (Some (2025, 2))
       = map ym_of_index [ym_index (2024, 11) .. ym_index (2025, 2)]
   \<and> ym_gt (2025, 3) (2025, 2) \<and> month_iter (2025, 6) (2025, 3) (Some (2025, 2)) = []
   \<and> valid_period (2024, 12) \<and> valid_period (next_month 2024 12)
   \<and> ym_index (next_month 2024 12) = ym_index (2024, 12) + 1"
proof -
  have v: "valid_period (2024, 11)" "valid_period (2025, 2)" "valid_period (2024, 12)"
    by (simp_all add: valid_period_def)
  have g: "ym_gt (2025, 3) (2025, 2)"
    by (simp add: ym_gt_def)
  note t1 = period_sequencing [where s = "(2024, 11)" and e = "(2025, 2)"
      and today = "(2025, 6)" and y = 2024 and m = 12]
  note t2 = period_sequencing [where s = "(2025, 3)" and e = "(2025, 2)"
      and today = "(2025, 6)" and y = 2024 and m = 12]
  from t1 v have a: "month_iter (2025, 6) (2024, 11) (Some (2025, 2))
       = map ym_of_index [ym_index (2024, 11) .. ym_index (2025, 2)]"
    by blast
  from t2 g have b: "month_iter (2025, 6) (2025, 3) (Some (2025, 2)) = []"
    by blast
  from t1 v have c: "valid_period (next_month 2024 12)
      \<and> ym_index (next_month 2024 12) = ym_index (2024, 12) + 1"
    by blast
  from v g a b c show ?thesis by blast
qed

section \<open>URL builder\<close>

lemma digit_char_safe: "k < 10 \<Longrightarrow> always_safe (''0123456789'' ! k)"
proof -
  assume "k < 10"
  hence "k \<in> {0, 1, 2, 3, 4, 5, 6, 7, 8, 9}" by auto
  thus ?thesis by (auto simp: always_safe_def)
qed

lemma nat_digits_safe: "c \<in> set (nat_digits n) \<Longrightarrow> always_safe c"
proof (induction n rule: nat_digits.induct)
  case (1 n)
  show ?case
  proof (cases "n < 10")
    case True
    with 1(2) show ?thesis by (simp add: nat_digits.simps digit_char_safe)
  next
    case False
    with 1 show ?thesis
      by (subst (asm) (2) nat_digits.simps) (auto simp: digit_char_safe)
  qed
qed

lemma sign_zero_safe: "always_safe CHR ''-''" "always_safe CHR ''0''"
  by (simp_all add: always_safe_def)

lemma str_int_safe: "c \<in> set (str_int i) \<Longrightarrow> always_safe c"
  by (auto simp: str_int_def nat_digits_safe sign_zero_safe split: if_splits)

lemma format_02d_safe: "c \<in> set (format_02d i) \<Longrightarrow> always_safe c"
  by (auto simp: format_02d_def Let_def str_int_safe sign_zero_safe split: if_splits)

lemma quote_plus_safe: "(\<And>c. c \<in> set s \<Longrightarrow> always_safe c) \<Longrightarrow> quote_plus s = s"
  by (induction s) (auto simp: quote_plus_def quote_char_def)

lemma quote_plus_str_int: "quote_plus (str_int i) = str_int i"
  by (rule quote_plus_safe) (rule str_int_safe)

lemma quote_plus_format_02d: "quote_plus (format_02d i) = format_02d i"
  by (rule quote_plus_safe) (rule format_02d_safe)

lemma quote_plus_consts:
  "quote_plus ''area_cd'' = ''area_cd''" "quote_plus ''11'' = ''11''"
  "quote_plus ''Gbn'' = ''Gbn''" "quote_plus ''MONTH'' = ''MONTH''"
  "quote_plus ''year'' = ''year''" "quote_plus ''month'' = ''month''"
  "quote_plus ''jin'' = ''jin''" "quote_plus ''Jindan'' = ''Jindan''"
  "quote_plus ''item_cd'' = ''item_cd''"
  by (simp_all add: quote_plus_def quote_char_def always_safe_def)

lemma format_02d_month:
  "0 \<le> m \<Longrightarrow> m \<le> 99 \<Longrightarrow>
   format_02d m = [''0123456789'' ! nat (m div 10), ''0123456789'' ! nat (m mod 10)]"
proof -
  assume m: "0 \<le> m" "m \<le> 99"
  show ?thesis
  proof (cases "m < 10")
    case True
    with m have "nat m < 10" "m div 10 = 0" "m mod 10 = m" by auto
    with m show ?thesis
      by (simp add: format_02d_def str_int_def nat_digits.simps)
  next
    case False
    with m have a: "\<not> nat m < 10" "nat m div 10 < 10" by auto
    have b: "nat m div 10 = nat (m div 10)" "nat m mod 10 = nat (m mod 10)"
      using m by (simp_all add: nat_div_distrib nat_mod_distrib)
    have "nat_digits (nat m) = nat_digits (nat m div 10) @ [''0123456789'' ! (nat m mod 10)]"
      using a by (subst nat_digits.simps) simp
    also have "nat_digits (nat m div 10) = [''0123456789'' ! (nat m div 10)]"
      using a by (subst nat_digits.simps) simp
    finally show ?thesis using m b by (simp add: format_02d_def str_int_def)
  qed
qed

lemma build_url_registered:
  "map_of DATASETS k = Some ds \<Longrightarrow>
   build_url k y m ov =
     Inr (BASE @ ''/'' @ path ds @ ''?area_cd=11&Gbn=MONTH&year='' @ str_int y
          @ ''&month='' @ format_02d m
          @ (if path ds = ''SystemIntro'' then ''&jin=Jindan'' else [])
          @ ''&item_cd='' @ str_int (item_or ov (default_item ds)))"
  by (simp add: build_url_def Let_def urlencode_def quote_plus_consts quote_plus_str_int
      quote_plus_format_02d)

lemma build_url_unknown: "map_of DATASETS k = None \<Longrightarrow> build_url k y m ov = Inl (KeyError k)"
  by (simp add: build_url_def)

lemma composite_key:
  "map_of DATASETS k = Some ds \<Longrightarrow> (path ds = ''SystemIntro'') = (k = ''market_consume'')"
  by (auto simp: DATASETS_def split: if_splits)

lemma renderable_small: "\<bar>n\<bar> < 10000 \<Longrightarrow> renderable n"
proof -
  assume "\<bar>n\<bar> < 10000"
  hence "\<bar>n\<bar> < 10 ^ 4" by simp
  also have "(10::int) ^ 4 \<le> 10 ^ 4300"
    by (rule power_increasing) simp_all
  finally show ?thesis unfolding renderable_def .
qed

lemma build_url_house_rent:
  "build_url ''house_rent'' 2023 4 None =
   Inr ''https://kremap.krihs.re.kr/menu2/Mind_Rent_Cur?area_cd=11&Gbn=MONTH&year=2023&month=04&item_cd=14''"
  by code_simp

text \<open>
  C3, as the specification states it, fails: the month is not validated. For the
  registered key \<^verbatim>\<open>house_rent\<close> and month 13 a URL is returned, with \<^verbatim>\<open>month=13\<close>.
\<close>

theorem build_url_month_counterexample:
  "build_url ''house_rent'' 2023 13 None =
   Inr ''https://kremap.krihs.re.kr/menu2/Mind_Rent_Cur?area_cd=11&Gbn=MONTH&year=2023&month=13&item_cd=14''"
  by code_simp

text \<open>
  C3, amended. For every dataset key that is not in the registry (the registry holds
  exactly the five keys), \<open>build_url\<close> fails with \<open>KeyError\<close> of that key, whatever the
  other arguments, and so builds no URL. The month is not validated: for a registered
  key, and a year, month and item code that Python renders as decimal text (at most
  4300 digits), a URL is returned for every such month, inside 1..12 or not, with the
  month rendered by \<open>format_02d\<close>. Nothing is stated about integers beyond that limit.
\<close>

theorem build_url_validation:
  "(map_of DATASETS k = None \<longrightarrow> build_url k y m ov = Inl (KeyError k))
   \<and> (map_of DATASETS k = None) =
       (k \<notin> {''market_consume'', ''house_consume'', ''house_sale'', ''house_rent'',
              ''land_consume''})
   \<and> (map_of DATASETS k = Some ds \<and> renderable y \<and> renderable m
        \<and> renderable (item_or ov (default_item ds)) \<longrightarrow>
        build_url k y m ov =
          Inr (BASE @ ''/'' @ path ds @ ''?area_cd=11&Gbn=MONTH&year='' @ str_int y
               @ ''&month='' @ format_02d m
               @ (if path ds = ''SystemIntro'' then ''&jin=Jindan'' else [])
               @ ''&item_cd='' @ str_int (item_or ov (default_item ds))))"
proof -
  have a: "map_of DATASETS k = None \<longrightarrow> build_url k y m ov = Inl (KeyError k)"
    by (simp add: build_url_unknown)
  have b: "(map_of DATASETS k = None) =
       (k \<notin> {''market_consume'', ''house_consume'', ''house_sale'', ''house_rent'',
              ''land_consume''})"
    by (simp add: DATASETS_def)
  from a b build_url_registered [of k ds y m ov] show ?thesis by blast
qed

theorem build_url_validation_witness:
  "map_of DATASETS ''no_such_dataset'' = None
   \<and> build_url ''no_such_dataset'' 2023 4 None = Inl (KeyError ''no_such_dataset'')
   \<and> map_of DATASETS ''house_rent'' = Some \<lparr>path = ''Mind_Rent_Cur'', default_item = 14\<rparr>
   \<and> renderable 2023 \<and> renderable 0 \<and> renderable 14
   \<and> build_url ''house_rent'' 2023 0 None =
       Inr (BASE @ ''/'' @ ''Mind_Rent_Cur'' @ ''?area_cd=11&Gbn=MONTH&year='' @ str_int 2023
            @ ''&month='' @ format_02d 0 @ ''&item_cd='' @ str_int 14)"
proof -
  have n: "map_of DATASETS ''no_such_dataset'' = None"
    by (simp add: DATASETS_def)
  have r: "map_of DATASETS ''house_rent'' = Some \<lparr>path = ''Mind_Rent_Cur'', default_item = 14\<rparr>"
    by (simp add: DATASETS_def)
  have d: "renderable 2023" "renderable 0" "renderable 14"
    by (simp_all add: renderable_small)
  have i: "item_or None (default_item \<lparr>path = ''Mind_Rent_Cur'', default_item = 14\<rparr>) = 14"
    by (simp add: item_or_def)
  from n build_url_validation [where k = "''no_such_dataset''" and y = 2023 and m = 4
      and ov = None]
  have a: "build_url ''no_such_dataset'' 2023 4 None = Inl (KeyError ''no_such_dataset'')"
    by blast
  from r d i build_url_validation [where k = "''house_rent''" and y = 2023 and m = 0
      and ov = None and ds = "\<lparr>path = ''Mind_Rent_Cur'', default_item = 14\<rparr>"]
  have b: "build_url ''house_rent'' 2023 0 None =
       Inr (BASE @ ''/'' @ ''Mind_Rent_Cur'' @ ''?area_cd=11&Gbn=MONTH&year='' @ str_int 2023
            @ ''&month='' @ format_02d 0 @ ''&item_cd='' @ str_int 14)"
    by simp
  from n r d a b show ?thesis by blast
qed

text \<open>
  C7, as the specification states it, fails: for the composite dataset the marker
  \<^verbatim>\<open>jin=Jindan\<close> stands before \<^verbatim>\<open>item_cd\<close>, not after it.
\<close>

theorem build_url_shape_counterexample:
  "build_url ''market_consume'' 2023 4 None =
     Inr ''https://kremap.krihs.re.kr/menu2/SystemIntro?area_cd=11&Gbn=MONTH&year=2023&month=04&jin=Jindan&item_cd=2''
   \<and> build_url ''market_consume'' 2023 4 None
       \<noteq> Inr (spec_url_shape ''SystemIntro'' ''2023'' ''04'' ''2'' True)"
proof -
  have a: "build_url ''market_consume'' 2023 4 None =
     Inr ''https://kremap.krihs.re.kr/menu2/SystemIntro?area_cd=11&Gbn=MONTH&year=2023&month=04&jin=Jindan&item_cd=2''"
    by code_simp
  have b: "spec_url_shape ''SystemIntro'' ''2023'' ''04'' ''2'' True =
     ''https://kremap.krihs.re.kr/menu2/SystemIntro?area_cd=11&Gbn=MONTH&year=2023&month=04&item_cd=2&jin=Jindan''"
    by (simp add: spec_url_shape_def BASE_def)
  show ?thesis unfolding a b by simp
qed

text \<open>
  C7, amended. For every registered dataset key, every year, every month in 1..12 and
  every optional override, \<open>build_url\<close> returns exactly
  \<^verbatim>\<open><base>/<dataset-path>?area_cd=11&Gbn=MONTH&year=<Y>&month=<MM>[&jin=Jindan]&item_cd=<code>\<close>:
  the month is two decimal digits, the marker stands before the item code and is
  present exactly for the key \<^verbatim>\<open>market_consume\<close>, and the item code is the override when
  one is given and is not zero, otherwise the dataset's default. The result is a
  function of the arguments; \<^verbatim>\<open>build_url("house_rent", 2023, 4)\<close> is the URL with item
  code 14.
\<close>

theorem build_url_shape:
  "(map_of DATASETS k = Some ds \<and> 1 \<le> m \<and> m \<le> 12 \<longrightarrow>
      build_url k y m ov =
        Inr (BASE @ ''/'' @ path ds @ ''?area_cd=11&Gbn=MONTH&year='' @ str_int y
             @ ''&month='' @ [''0123456789'' ! nat (m div 10), ''0123456789'' ! nat (m mod 10)]
             @ (if k = ''market_consume'' then ''&jin=Jindan'' else [])
             @ ''&item_cd=''
             @ str_int (case ov of None \<Rightarrow> default_item ds
                        | Some c \<Rightarrow> if c = 0 then default_item ds else c)))
   \<and> build_url ''house_rent'' 2023 4 None =
       Inr ''https://kremap.krihs.re.kr/menu2/Mind_Rent_Cur?area_cd=11&Gbn=MONTH&year=2023&month=04&item_cd=14''"
proof -
  have "build_url k y m ov =
        Inr (BASE @ ''/'' @ path ds @ ''?area_cd=11&Gbn=MONTH&year='' @ str_int y
             @ ''&month='' @ [''0123456789'' ! nat (m div 10), ''0123456789'' ! nat (m mod 10)]
             @ (if k = ''market_consume'' then ''&jin=Jindan'' else [])
             @ ''&item_cd=''
             @ str_int (case ov of None \<Rightarrow> default_item ds
                        | Some c \<Rightarrow> if c = 0 then default_item ds else c))"
    if h: "map_of DATASETS k = Some ds" "1 \<le> m" "m \<le> 12"
  proof -
    have f: "format_02d m = [''0123456789'' ! nat (m div 10), ''0123456789'' ! nat (m mod 10)]"
      using h by (intro format_02d_month) auto
    show ?thesis
      unfolding build_url_registered [OF h(1)] f composite_key [OF h(1)] item_or_def
      by simp
  qed
  with build_url_house_rent show ?thesis by blast
qed

theorem build_url_shape_witness:
  "map_of DATASETS ''market_consume'' = Some \<lparr>path = ''SystemIntro'', default_item = 2\<rparr>
   \<and> (1::int) \<le> 4 \<and> (4::int) \<le> 12
   \<and> build_url ''market_consume'' 2023 4 (Some 3) =
       Inr ''https://kremap.krihs.re.kr/menu2/SystemIntro?area_cd=11&Gbn=MONTH&year=2023&month=04&jin=Jindan&item_cd=3''"
proof -
  have r: "map_of DATASETS ''market_consume'' = Some \<lparr>path = ''SystemIntro'', default_item = 2\<rparr>"
    by (simp add: DATASETS_def)
  have s: "str_int 2023 = ''2023''" "str_int 3 = ''3''"
    by code_simp+
  from r build_url_shape [of "''market_consume''" "\<lparr>path = ''SystemIntro'', default_item = 2\<rparr>"
      4 2023 "Some 3"]
  show ?thesis by (simp add: s BASE_def)
qed

section \<open>Icon scorer\<close>

lemma decimal_value_less: "decimal_value c = Some v \<Longrightarrow> v < 10"
  by (auto simp: decimal_value_def find_Some_iff split: option.splits)

lemma re_search_digit: "re_search t = Some (g1, g2) \<Longrightarrow> decimal_value g2 \<noteq> None \<and> (g1 = 0x2B \<or> g1 = 0x2D)"
  by (induction t rule: re_search.induct) (auto split: if_splits)

lemma score_weather_range:
  "score_weather s = Some v \<Longrightarrow> - 10 \<le> v \<and> v \<le> 10"
proof -
  assume a: "score_weather s = Some v"
  show ?thesis
  proof (cases "re_search (replace_space s)")
    case None
    with a show ?thesis
      by (auto simp: score_weather_def Let_def split: if_splits)
  next
    case (Some g)
    obtain g1 g2 where g: "g = (g1, g2)" by (cases g)
    with Some re_search_digit obtain d where d: "decimal_value g2 = Some d" by blast
    hence "d < 10" by (rule decimal_value_less)
    with a Some g d show ?thesis
      by (auto simp: score_weather_def Let_def split: if_splits)
  qed
qed

lemma find_map_index: "find P (map f xs) = map_option f (find (P \<circ> f) xs)"
  by (induction xs) auto

lemma find_upt_Suc:
  "find P [0 ..< Suc n] = (if P 0 then Some 0 else map_option Suc (find (P \<circ> Suc) [0 ..< n]))"
proof -
  have "[0 ..< Suc n] = 0 # [Suc 0 ..< Suc n]"
    by (rule upt_conv_Cons) simp
  also have "[Suc 0 ..< Suc n] = map Suc [0 ..< n]"
    by (simp only: map_Suc_upt)
  finally show ?thesis by (simp only: find.simps find_map_index)
qed

lemma pattern_at_Suc: "pattern_at (c # t) (Suc i) = pattern_at t i"
  by (simp add: pattern_at_def numeral_3_eq_3 numeral_2_eq_2)

lemma pattern_at_short: "length t < 4 \<Longrightarrow> pattern_at t i = False"
  by (simp add: pattern_at_def)

lemma first_pattern_short: "length t < 4 \<Longrightarrow> first_pattern t = None"
  by (simp add: first_pattern_def find_None_iff pattern_at_short)

lemma first_pattern_Cons:
  "first_pattern (c # t) =
     (if pattern_at (c # t) 0 then Some 0 else map_option Suc (first_pattern t))"
proof -
  have "pattern_at (c # t) \<circ> Suc = pattern_at t"
    by (rule ext) (simp add: pattern_at_Suc)
  thus ?thesis by (simp add: first_pattern_def find_upt_Suc del: upt_Suc)
qed

lemma re_search_first:
  "re_search t = map_option (\<lambda>i. (t ! i, t ! (i + 1))) (first_pattern t)"
proof (induction t rule: re_search.induct)
  case (1 g1 g2 t1 t2 rest)
  show ?case
  proof (cases "pattern_at (g1 # g2 # t1 # t2 # rest) 0")
    case True
    moreover from True have "(g1 = 0x2B \<or> g1 = 0x2D) \<and> decimal_value g2 \<noteq> None
        \<and> t1 = 0xB2E8 \<and> t2 = 0xACC4"
      by (simp add: pattern_at_def numeral_3_eq_3 numeral_2_eq_2)
    ultimately show ?thesis by (simp add: first_pattern_Cons)
  next
    case False
    hence n: "\<not> ((g1 = 0x2B \<or> g1 = 0x2D) \<and> decimal_value g2 \<noteq> None \<and> t1 = 0xB2E8 \<and> t2 = 0xACC4)"
      by (simp add: pattern_at_def numeral_3_eq_3 numeral_2_eq_2)
    have "re_search (g1 # g2 # t1 # t2 # rest) = re_search (g2 # t1 # t2 # rest)"
      using n by auto
    also have "\<dots> = map_option (\<lambda>i. ((g2 # t1 # t2 # rest) ! i, (g2 # t1 # t2 # rest) ! (i + 1)))
        (first_pattern (g2 # t1 # t2 # rest))"
      using 1 n by blast
    also have "\<dots> = map_option (\<lambda>i. ((g1 # g2 # t1 # t2 # rest) ! i, (g1 # g2 # t1 # t2 # rest) ! (i + 1)))
        (first_pattern (g1 # g2 # t1 # t2 # rest))"
      using False by (subst (2) first_pattern_Cons) (simp add: option.map_comp comp_def)
    finally show ?thesis .
  qed
qed (simp_all add: first_pattern_short)

lemma score_weather_classify:
  "score_weather s = (if s = [] then None else classify_and_score (replace_space s))"
  by (auto simp: score_weather_def classify_and_score_def leading_phase_def score_rule_def
      signed_magnitude_def digit_of_def re_search_first Let_def contraction_def expansion_def
      stability_def startswith_def split: option.splits)

lemma signed_magnitude_re:
  "signed_magnitude t =
     (case re_search t of None \<Rightarrow> (0, 0)
      | Some (g1, g2) \<Rightarrow> (if g1 = 0x2D then - 1 else 1, digit_of g2))"
  by (simp add: signed_magnitude_def re_search_first split: option.splits)

lemma decimal_value_ascii: "N < 10 \<Longrightarrow> decimal_value (0x30 + N) = Some N"
  by (simp add: decimal_value_def decimal_zeros_def)

lemma digit_of_ascii: "N < 10 \<Longrightarrow> digit_of (0x30 + N) = int N"
  by (simp add: digit_of_def decimal_value_ascii)

lemma signed_magnitude_word:
  assumes "N < 10" "sg = 0x2B \<or> sg = 0x2D" "a \<noteq> 0x2B" "a \<noteq> 0x2D" "b \<noteq> 0x2B" "b \<noteq> 0x2D"
  shows "signed_magnitude ([a, b] @ [sg, 0x30 + N, 0xB2E8, 0xACC4])
         = (if sg = 0x2D then - 1 else 1, int N)"
  using assms by (auto simp: signed_magnitude_re digit_of_ascii decimal_value_ascii)

lemma leading_phase_words:
  "leading_phase (contraction @ r) = Some Contraction"
  "leading_phase (expansion @ r) = Some Expansion"
  "leading_phase (stability @ r) = Some Stability"
  by (simp_all add: leading_phase_def startswith_def contraction_def expansion_def stability_def)

lemma score_family:
  assumes "N < 10" "sg = 0x2B \<or> sg = 0x2D"
  shows "replace_space s = contraction @ [sg, 0x30 + N, 0xB2E8, 0xACC4]
           \<Longrightarrow> score_weather s = Some (- (int N + 1))"
    and "replace_space s = expansion @ [sg, 0x30 + N, 0xB2E8, 0xACC4]
           \<Longrightarrow> score_weather s = Some (int N + 1)"
    and "replace_space s = stability @ [sg, 0x30 + N, 0xB2E8, 0xACC4]
           \<Longrightarrow> score_weather s = Some ((if sg = 0x2D then - 1 else 1) * int N)"
proof -
  have c: "signed_magnitude (contraction @ [sg, 0x30 + N, 0xB2E8, 0xACC4])
         = (if sg = 0x2D then - 1 else 1, int N)"
    unfolding contraction_def using assms by (intro signed_magnitude_word) simp_all
  have e: "signed_magnitude (expansion @ [sg, 0x30 + N, 0xB2E8, 0xACC4])
         = (if sg = 0x2D then - 1 else 1, int N)"
    unfolding expansion_def using assms by (intro signed_magnitude_word) simp_all
  have st: "signed_magnitude (stability @ [sg, 0x30 + N, 0xB2E8, 0xACC4])
         = (if sg = 0x2D then - 1 else 1, int N)"
    unfolding stability_def using assms by (intro signed_magnitude_word) simp_all
  show "replace_space s = contraction @ [sg, 0x30 + N, 0xB2E8, 0xACC4]
           \<Longrightarrow> score_weather s = Some (- (int N + 1))"
  proof -
    assume h: "replace_space s = contraction @ [sg, 0x30 + N, 0xB2E8, 0xACC4]"
    hence "s \<noteq> []" by (auto simp: replace_space_def)
    with h c show ?thesis
      by (simp add: score_weather_classify classify_and_score_def leading_phase_words
          score_rule_def)
  qed
  show "replace_space s = expansion @ [sg, 0x30 + N, 0xB2E8, 0xACC4]
           \<Longrightarrow> score_weather s = Some (int N + 1)"
  proof -
    assume h: "replace_space s = expansion @ [sg, 0x30 + N, 0xB2E8, 0xACC4]"
    hence "s \<noteq> []" by (auto simp: replace_space_def)
    with h e show ?thesis
      by (simp add: score_weather_classify classify_and_score_def leading_phase_words
          score_rule_def)
  qed
  show "replace_space s = stability @ [sg, 0x30 + N, 0xB2E8, 0xACC4]
           \<Longrightarrow> score_weather s = Some ((if sg = 0x2D then - 1 else 1) * int N)"
  proof -
    assume h: "replace_space s = stability @ [sg, 0x30 + N, 0xB2E8, 0xACC4]"
    hence "s \<noteq> []" by (auto simp: replace_space_def)
    with h st show ?thesis
      by (simp add: score_weather_classify classify_and_score_def leading_phase_words
          score_rule_def)
  qed
qed

lemma score_examples:
  "score_weather (contraction @ [0x2B, 0x32, 0xB2E8, 0xACC4]) = Some (- 3)"
  "score_weather (expansion @ [0x2D, 0x31, 0xB2E8, 0xACC4]) = Some 2"
  "score_weather (stability @ [0x2D, 0x32, 0xB2E8, 0xACC4]) = Some (- 2)"
  "score_weather [] = None"
  by (simp_all add: score_weather_def contraction_def expansion_def stability_def
      replace_space_def startswith_def decimal_value_def decimal_zeros_def)

text \<open>
  C2, as the specification states it, fails where white space is concerned. The source
  removes every U+0020 and nothing else; it does not strip white space. The descriptor
  made of the contraction word, \<^verbatim>\<open>+1\<close>, a tab, the suffix, \<^verbatim>\<open>+2\<close>, a space and the
  suffix scores -3 in the source (the space goes, the tab stays, the first match is
  \<^verbatim>\<open>+2\<close>), while after stripping white space the pattern stands nowhere in it and the
  rule gives -(0 + 1) = -1; were all white space removed instead, the first match
  would be \<^verbatim>\<open>+1\<close> and the rule would give -2.
\<close>

theorem score_weather_strip_counterexample:
  "score_weather
       (contraction @ [0x2B, 0x31, 0x09, 0xB2E8, 0xACC4, 0x2B, 0x32, 0x20, 0xB2E8, 0xACC4])
     = Some (- 3)
   \<and> spec_score_weather
       (contraction @ [0x2B, 0x31, 0x09, 0xB2E8, 0xACC4, 0x2B, 0x32, 0x20, 0xB2E8, 0xACC4])
     = Some (- 1)
   \<and> classify_and_score
       (filter (\<lambda>c. \<not> isspace c)
          (contraction @ [0x2B, 0x31, 0x09, 0xB2E8, 0xACC4, 0x2B, 0x32, 0x20, 0xB2E8, 0xACC4]))
     = Some (- 2)"
  by (simp add: score_weather_def spec_score_weather_def classify_and_score_def
      leading_phase_def score_rule_def signed_magnitude_re digit_of_def strip_def isspace_def
      contraction_def expansion_def stability_def
      replace_space_def startswith_def decimal_value_def decimal_zeros_def)

text \<open>
  C2, amended. For every descriptor, the empty one scores absent; otherwise every
  U+0020 is removed (no other white space, and not only at the ends) and the rest is
  classified and scored: a text that starts with no phase word is absent; a
  contraction-phase text whose leftmost match of the pattern has digit \<open>N\<close> scores
  \<open>-(N + 1)\<close>, an expansion-phase one \<open>N + 1\<close>, a stability-phase one \<open>sign * N\<close>; sign
  and magnitude are 0 when the pattern stands nowhere. In particular, for every digit
  \<open>N\<close> and sign, a descriptor that is a phase word followed by sign, digit and suffix,
  with spaces anywhere, scores by the rule, and the four examples of the
  specification evaluate to -3, 2, -2 and absent.
\<close>

theorem score_weather_rule:
  "score_weather s = (if s = [] then None else classify_and_score (replace_space s))
   \<and> (N < 10 \<and> (sg = 0x2B \<or> sg = 0x2D) \<longrightarrow>
        (replace_space s = contraction @ [sg, 0x30 + N, 0xB2E8, 0xACC4]
           \<longrightarrow> score_weather s = Some (- (int N + 1)))
        \<and> (replace_space s = expansion @ [sg, 0x30 + N, 0xB2E8, 0xACC4]
           \<longrightarrow> score_weather s = Some (int N + 1))
        \<and> (replace_space s = stability @ [sg, 0x30 + N, 0xB2E8, 0xACC4]
           \<longrightarrow> score_weather s = Some ((if sg = 0x2D then - 1 else 1) * int N)))
   \<and> (first_pattern t = None \<longrightarrow> signed_magnitude t = (0, 0))
   \<and> (leading_phase (replace_space s) = None \<longrightarrow> score_weather s = None)
   \<and> score_weather (contraction @ [0x2B, 0x32, 0xB2E8, 0xACC4]) = Some (- 3)
   \<and> score_weather (expansion @ [0x2D, 0x31, 0xB2E8, 0xACC4]) = Some 2
   \<and> score_weather (stability @ [0x2D, 0x32, 0xB2E8, 0xACC4]) = Some (- 2)
   \<and> score_weather [] = None"
proof -
  have a: "score_weather s = (if s = [] then None else classify_and_score (replace_space s))"
    by (rule score_weather_classify)
  have b: "first_pattern t = None \<longrightarrow> signed_magnitude t = (0, 0)"
    by (simp add: signed_magnitude_def)
  have c: "leading_phase (replace_space s) = None \<longrightarrow> score_weather s = None"
    by (simp add: score_weather_classify classify_and_score_def)
  from a b c score_family [of N sg s] score_examples show ?thesis by blast
qed

theorem score_weather_rule_witness:
  "(2::nat) < 10
   \<and> replace_space (contraction @ [0x20, 0x2B, 0x20, 0x32, 0xB2E8, 0xACC4])
       = contraction @ [0x2B, 0x30 + 2, 0xB2E8, 0xACC4]
   \<and> score_weather (contraction @ [0x20, 0x2B, 0x20, 0x32, 0xB2E8, 0xACC4]) = Some (- (int 2 + 1))
   \<and> replace_space (expansion @ [0x2D, 0x31, 0x20, 0xB2E8, 0xACC4])
       = expansion @ [0x2D, 0x30 + 1, 0xB2E8, 0xACC4]
   \<and> score_weather (expansion @ [0x2D, 0x31, 0x20, 0xB2E8, 0xACC4]) = Some (int 1 + 1)
   \<and> replace_space (stability @ [0x2D, 0x32, 0xB2E8, 0xACC4, 0x20])
       = stability @ [0x2D, 0x30 + 2, 0xB2E8, 0xACC4]
   \<and> score_weather (stability @ [0x2D, 0x32, 0xB2E8, 0xACC4, 0x20])
       = Some ((if (0x2D::nat) = 0x2D then - 1 else 1) * int 2)
   \<and> first_pattern stability = None \<and> signed_magnitude stability = (0, 0)
   \<and> leading_phase (replace_space [0x41, 0x20, 0x42]) = None
   \<and> score_weather [0x41, 0x20, 0x42] = None"
proof -
  have r1: "replace_space (contraction @ [0x20, 0x2B, 0x20, 0x32, 0xB2E8, 0xACC4])
       = contraction @ [0x2B, 0x30 + 2, 0xB2E8, 0xACC4]"
    by (simp add: replace_space_def contraction_def)
  have r2: "replace_space (expansion @ [0x2D, 0x31, 0x20, 0xB2E8, 0xACC4])
       = expansion @ [0x2D, 0x30 + 1, 0xB2E8, 0xACC4]"
    by (simp add: replace_space_def expansion_def)
  have r3: "replace_space (stability @ [0x2D, 0x32, 0xB2E8, 0xACC4, 0x20])
       = stability @ [0x2D, 0x30 + 2, 0xB2E8, 0xACC4]"
    by (simp add: replace_space_def stability_def)
  have f: "first_pattern stability = None"
    by (simp add: first_pattern_short stability_def)
  have l: "leading_phase (replace_space [0x41, 0x20, 0x42]) = None"
    by (simp add: leading_phase_def replace_space_def startswith_def contraction_def
        expansion_def stability_def)
  have n: "(2::nat) < 10" "(1::nat) < 10" by simp_all
  from n r1 score_weather_rule [of "contraction @ [0x20, 0x2B, 0x20, 0x32, 0xB2E8, 0xACC4]" 2 "0x2B"]
  have s1: "score_weather (contraction @ [0x20, 0x2B, 0x20, 0x32, 0xB2E8, 0xACC4])
      = Some (- (int 2 + 1))"
    by blast
  from n r2 score_weather_rule [of "expansion @ [0x2D, 0x31, 0x20, 0xB2E8, 0xACC4]" 1 "0x2D"]
  have s2: "score_weather (expansion @ [0x2D, 0x31, 0x20, 0xB2E8, 0xACC4]) = Some (int 1 + 1)"
    by blast
  from n r3 score_weather_rule [of "stability @ [0x2D, 0x32, 0xB2E8, 0xACC4, 0x20]" 2 "0x2D"]
  have s3: "score_weather (stability @ [0x2D, 0x32, 0xB2E8, 0xACC4, 0x20])
       = Some ((if (0x2D::nat) = 0x2D then - 1 else 1) * int 2)"
    by blast
  from f score_weather_rule [of "[]" 0 0 stability]
  have s4: "signed_magnitude stability = (0, 0)"
    by blast
  from l score_weather_rule [of "[0x41, 0x20, 0x42]" 0 0 "[]"]
  have s5: "score_weather [0x41, 0x20, 0x42] = None"
    by blast
  from n r1 r2 r3 f l s1 s2 s3 s4 s5 show ?thesis by blast
qed

section \<open>Collector\<close>

lemma build_url_period_url:
  "map_of DATASETS k = Some ds \<Longrightarrow> build_url k (fst p) (snd p) ov = Inr (period_url ds ov p)"
  by (simp add: build_url_registered period_url_def)

lemma row_item_registered:
  "map_of DATASETS k = Some ds \<Longrightarrow> row_item k ov = Inr (item_or ov (default_item ds))"
  by (auto simp: row_item_def registry_default_def item_or_def split: option.splits)

lemma table_rows_registered:
  "map_of DATASETS k = Some ds \<Longrightarrow>
   table_rows k ov y m u tbl = Inr (map (make_row k (item_or ov (default_item ds)) y m u) tbl)"
  by (induction tbl) (simp_all add: row_item_registered)

lemma collect_loop_ok:
  "map_of DATASETS k = Some ds \<Longrightarrow> list_all (loads eng ds ov) ps \<Longrightarrow>
   collect_loop eng k ov ps rows =
     (concat (map (\<lambda>p. period_trace k ds ov p (page_of eng ds ov p)) ps),
      Inr (rows @ concat (map (\<lambda>p. period_rows k ds ov p (page_of eng ds ov p)) ps)))"
proof (induction ps arbitrary: rows)
  case Nil
  show ?case by simp
next
  case (Cons p ps)
  from Cons.prems(2) obtain pg where pg: "eng (period_url ds ov p) = Inr pg"
    by (auto simp: loads_def split: sum.splits)
  hence po: "page_of eng ds ov p = pg" by (simp add: page_of_def)
  from Cons.prems(2) have rest: "list_all (loads eng ds ov) ps" by simp
  show ?case
    using Cons.IH [OF Cons.prems(1) rest] pg po
    by (simp add: build_url_period_url [OF Cons.prems(1)] table_rows_registered [OF Cons.prems(1)]
        Let_def period_rows_def period_trace_def)
qed

lemma collect_loop_fail:
  "map_of DATASETS k = Some ds \<Longrightarrow> list_all (loads eng ds ov) pre \<Longrightarrow>
   eng (period_url ds ov p) = Inl err \<Longrightarrow>
   collect_loop eng k ov (pre @ p # post) rows =
     (concat (map (\<lambda>q. period_trace k ds ov q (page_of eng ds ov q)) pre)
        @ [Goto (period_url ds ov p), PageClose (period_url ds ov p)],
      Inl err)"
proof (induction pre arbitrary: rows)
  case Nil
  thus ?case by (simp add: build_url_period_url [OF Nil.prems(1)])
next
  case (Cons q pre)
  from Cons.prems(2) obtain pg where pg: "eng (period_url ds ov q) = Inr pg"
    by (auto simp: loads_def split: sum.splits)
  hence po: "page_of eng ds ov q = pg" by (simp add: page_of_def)
  from Cons.prems(2) have rest: "list_all (loads eng ds ov) pre" by simp
  show ?case
    using Cons.IH [OF Cons.prems(1) rest Cons.prems(3)] pg po
    by (simp add: build_url_period_url [OF Cons.prems(1)] table_rows_registered [OF Cons.prems(1)]
        Let_def period_rows_def period_trace_def)
qed

lemma visited_append: "visited (a @ b) = visited a @ visited b"
  by (induction a rule: visited.induct) simp_all

lemma closed_append: "closed (a @ b) = closed a @ closed b"
  by (induction a rule: closed.induct) simp_all

lemma visited_period_trace: "visited (period_trace k ds ov p pg) = [period_url ds ov p]"
  by (simp add: period_trace_def visited_append)

lemma closed_period_trace: "closed (period_trace k ds ov p pg) = [period_url ds ov p]"
  by (simp add: period_trace_def closed_append)

lemma visited_concat_traces:
  "visited (concat (map (\<lambda>p. period_trace k ds ov p (f p)) ps)) = map (period_url ds ov) ps"
  by (induction ps) (simp_all add: visited_append visited_period_trace)

lemma closed_concat_traces:
  "closed (concat (map (\<lambda>p. period_trace k ds ov p (f p)) ps)) = map (period_url ds ov) ps"
  by (induction ps) (simp_all add: closed_append closed_period_trace)

lemma table_rows_inv:
  assumes "\<And>item y m u entry. row_item k ov = Inr item \<Longrightarrow> P (make_row k item y m u entry)"
  shows "table_rows k ov y m u tbl = Inr rs \<Longrightarrow> list_all P rs"
proof (induction tbl arbitrary: rs)
  case Nil
  thus ?case by simp
next
  case (Cons entry tbl)
  from Cons.prems obtain item rs' where
    item: "row_item k ov = Inr item"
    and rs': "table_rows k ov y m u tbl = Inr rs'"
    and rs: "rs = make_row k item y m u entry # rs'"
    by (auto split: sum.splits)
  from item have "P (make_row k item y m u entry)" by (rule assms)
  moreover from rs' have "list_all P rs'" by (rule Cons.IH)
  ultimately show ?case using rs by simp
qed

lemma collect_loop_inv:
  assumes "\<And>item y m u entry. row_item k ov = Inr item \<Longrightarrow> P (make_row k item y m u entry)"
  shows "snd (collect_loop eng k ov ps acc) = Inr out \<Longrightarrow> list_all P acc \<Longrightarrow> list_all P out"
proof (induction ps arbitrary: acc)
  case Nil
  thus ?case by simp
next
  case (Cons p ps)
  from Cons.prems(1) obtain u pg new where
    new: "table_rows k ov (fst p) (snd p) u (parse_table_icons pg) = Inr new"
    and rest: "snd (collect_loop eng k ov ps (acc @ new)) = Inr out"
    by (auto simp: Let_def split: sum.splits)
  have "list_all P new"
    using table_rows_inv [where P = P and k = k and ov = ov, OF assms new] .
  with Cons.prems(2) have "list_all P (acc @ new)" by simp
  with rest show ?case by (rule Cons.IH)
qed

lemma row_item_zero: "row_item k (Some 0) = row_item k None"
  by (simp add: row_item_def)

lemma table_rows_zero: "table_rows k (Some 0) y m u tbl = table_rows k None y m u tbl"
  by (induction tbl) (simp_all add: row_item_zero split: sum.splits)

lemma build_url_zero: "build_url k y m (Some 0) = build_url k y m None"
  by (simp add: build_url_def item_or_def split: option.splits)

lemma collect_loop_zero: "collect_loop eng k (Some 0) ps acc = collect_loop eng k None ps acc"
  by (induction ps arbitrary: acc)
     (simp_all add: build_url_zero table_rows_zero Let_def split: sum.splits)

lemma collect_zero: "collect today eng k s e (Some 0) = collect today eng k s e None"
  by (simp add: collect_def collect_loop_zero)

lemma collect_incremental_zero:
  "collect_incremental today latest eng k d e (Some 0) = collect_incremental today latest eng k d e None"
  by (simp add: collect_incremental_def collect_zero Let_def)

lemma make_row_fields:
  "row_item_cd (make_row k item y m u entry) = item"
  "row_weather_score (make_row k item y m u entry)
     = score_weather (row_weather (make_row k item y m u entry))"
  by (simp_all add: make_row_def Let_def split: prod.splits)

lemma collect_incremental_window:
  "snd (collect_incremental today latest eng k d e ov)
     = snd (collect_loop eng k ov (planned_window today latest d e) [])
   \<and> visited (fst (collect_incremental today latest eng k d e ov))
     = visited (fst (collect_loop eng k ov (planned_window today latest d e) []))"
  by (cases latest)
     (simp_all add: collect_incremental_def planned_window_def collect_def Let_def month_iter_gt)

lemma collect_incremental_up_to_date:
  "ym_gt (case latest of None \<Rightarrow> d | Some l \<Rightarrow> next_month (fst l) (snd l))
         (case e of None \<Rightarrow> today | Some x \<Rightarrow> x) \<Longrightarrow>
   planned_window today latest d e = []
   \<and> snd (collect_incremental today latest eng k d e ov) = Inr []
   \<and> visited (fst (collect_incremental today latest eng k d e ov)) = []
   \<and> InfoUpToDate k \<in> set (fst (collect_incremental today latest eng k d e ov))"
  by (cases latest)
     (simp_all add: collect_incremental_def planned_window_def Let_def month_iter_gt)

lemma next_month_gt: "ym_gt (next_month y m) (y, m)"
  by (simp add: next_month_def ym_gt_def Let_def)

lemma house_rent_registered:
  "map_of DATASETS ''house_rent'' = Some \<lparr>path = ''Mind_Rent_Cur'', default_item = 14\<rparr>"
  by (simp add: DATASETS_def)

lemma house_rent_urls:
  "period_url \<lparr>path = ''Mind_Rent_Cur'', default_item = 14\<rparr> None (2024, 1) =
     ''https://kremap.krihs.re.kr/menu2/Mind_Rent_Cur?area_cd=11&Gbn=MONTH&year=2024&month=01&item_cd=14''"
  "period_url \<lparr>path = ''Mind_Rent_Cur'', default_item = 14\<rparr> None (2024, 2) =
     ''https://kremap.krihs.re.kr/menu2/Mind_Rent_Cur?area_cd=11&Gbn=MONTH&year=2024&month=02&item_cd=14''"
  "period_url \<lparr>path = ''Mind_Rent_Cur'', default_item = 14\<rparr> None (2024, 3) =
     ''https://kremap.krihs.re.kr/menu2/Mind_Rent_Cur?area_cd=11&Gbn=MONTH&year=2024&month=03&item_cd=14''"
  "period_url \<lparr>path = ''Mind_Rent_Cur'', default_item = 14\<rparr> (Some 0) (2024, 3) =
     ''https://kremap.krihs.re.kr/menu2/Mind_Rent_Cur?area_cd=11&Gbn=MONTH&year=2024&month=03&item_cd=14''"
  by code_simp+

lemma flaky_engine_loads:
  "loads flaky_engine \<lparr>path = ''Mind_Rent_Cur'', default_item = 14\<rparr> None (2024, 1)"
  "loads flaky_engine \<lparr>path = ''Mind_Rent_Cur'', default_item = 14\<rparr> None (2024, 3)"
  "loads flaky_engine \<lparr>path = ''Mind_Rent_Cur'', default_item = 14\<rparr> (Some 0) (2024, 3)"
  "flaky_engine (period_url \<lparr>path = ''Mind_Rent_Cur'', default_item = 14\<rparr> None (2024, 2))
     = Inl TimeoutError"
  "page_of flaky_engine \<lparr>path = ''Mind_Rent_Cur'', default_item = 14\<rparr> None (2024, 3)
     = sample_page"
  "page_of flaky_engine \<lparr>path = ''Mind_Rent_Cur'', default_item = 14\<rparr> (Some 0) (2024, 3)
     = sample_page"
  by (simp_all add: loads_def page_of_def house_rent_urls flaky_engine_def)

lemma window_2024:
  "month_iter today (2024, 1) (Some (2024, 3)) = [(2024, 1)] @ (2024, 2) # [(2024, 3)]"
  "month_iter today (2024, 3) (Some (2024, 3)) = [(2024, 3)]"
  by (simp_all add: month_iter_def ym_le_def month_loop.simps)

lemma parse_sample_page:
  "parse_table_icons sample_page =
     [([0xAC15, 0xB0A8, 0xAD6C],
       \<lparr>weather = [0xC218, 0xCD95, 0x2B, 0x32, 0xB2E8, 0xACC4], mom = [0x2191]\<rparr>)]"
  by (simp add: parse_table_icons_def sample_page_def select_table_def parse_row_def
      row_alts_def strip_def isspace_def header_caption_def Let_def)

lemma sample_rows:
  "period_rows ''house_rent'' \<lparr>path = ''Mind_Rent_Cur'', default_item = 14\<rparr> ov (2024, 3) sample_page =
     [\<lparr>row_dataset = ''house_rent'',
       row_item_cd = item_or ov 14, row_year = 2024, row_month = 3,
       row_region_name = [0xAC15, 0xB0A8, 0xAD6C], row_region_code = ''11680'',
       row_region_alias = ''gangnam'',
       row_weather = [0xC218, 0xCD95, 0x2B, 0x32, 0xB2E8, 0xACC4],
       row_weather_score = Some (- 3), row_mom = [0x2191],
       row_url = period_url \<lparr>path = ''Mind_Rent_Cur'', default_item = 14\<rparr> ov (2024, 3)\<rparr>]"
  using score_examples(1)
  by (simp add: period_rows_def parse_sample_page make_row_def SEOUL_GU_MAP_def contraction_def)

text \<open>
  C1, as the specification states it, fails: the loop body has \<^verbatim>\<open>try ... finally\<close> and no
  \<^verbatim>\<open>except\<close>. With an engine that times out on the February page, a run over
  January to March 2024 ends with the timeout: January's rows are not returned, March
  is never loaded, and nothing is logged for the failure.
\<close>

theorem collect_isolation_counterexample:
  "snd (collect (2024, 3) flaky_engine ''house_rent'' (2024, 1) (Some (2024, 3)) None)
     = Inl TimeoutError
   \<and> visited (fst (collect (2024, 3) flaky_engine ''house_rent'' (2024, 1) (Some (2024, 3)) None))
     = [''https://kremap.krihs.re.kr/menu2/Mind_Rent_Cur?area_cd=11&Gbn=MONTH&year=2024&month=01&item_cd=14'',
        ''https://kremap.krihs.re.kr/menu2/Mind_Rent_Cur?area_cd=11&Gbn=MONTH&year=2024&month=02&item_cd=14'']"
proof -
  have l: "list_all (loads flaky_engine \<lparr>path = ''Mind_Rent_Cur'', default_item = 14\<rparr> None)
      [(2024, 1)]"
    by (simp add: flaky_engine_loads)
  show ?thesis
    unfolding collect_def window_2024
      collect_loop_fail [OF house_rent_registered l flaky_engine_loads(4)]
    by (simp add: visited_append visited_period_trace house_rent_urls)
qed

text \<open>
  C1, amended. A dataset key that is not registered ends a run over a window that is
  not empty with \<open>KeyError\<close>, before any page is loaded. For a registered dataset
  key: when the page of every period of the window loads, the run returns the rows of
  all periods in period order, and its trace is the periods' traces in order; a
  period whose extraction is empty is logged with a warning, yields zero rows, and the
  loop goes on. When the page of a period fails to load or render, nothing is caught
  and nothing is logged: that period's page is closed and the exception leaves the
  run at once, so the run returns no rows, the pages loaded are those up to the
  failing period, each of them closed, and no later period is fetched.
\<close>

theorem collect_failure_aborts:
  "(map_of DATASETS k = None \<and> month_iter today s e \<noteq> [] \<longrightarrow>
      collect today eng k s e ov = ([], Inl (KeyError k)))
   \<and> (map_of DATASETS k = Some ds \<longrightarrow>
     (list_all (loads eng ds ov) (month_iter today s e) \<longrightarrow>
        collect today eng k s e ov =
          (concat (map (\<lambda>p. period_trace k ds ov p (page_of eng ds ov p)) (month_iter today s e)),
           Inr (concat (map (\<lambda>p. period_rows k ds ov p (page_of eng ds ov p))
                  (month_iter today s e)))))
     \<and> (month_iter today s e = pre @ p # post \<and> list_all (loads eng ds ov) pre
          \<and> eng (period_url ds ov p) = Inl err \<longrightarrow>
        collect today eng k s e ov =
          (concat (map (\<lambda>q. period_trace k ds ov q (page_of eng ds ov q)) pre)
             @ [Goto (period_url ds ov p), PageClose (period_url ds ov p)],
           Inl err)
        \<and> visited (fst (collect today eng k s e ov)) = map (period_url ds ov) (pre @ [p])
        \<and> closed (fst (collect today eng k s e ov)) = map (period_url ds ov) (pre @ [p]))
     \<and> (parse_table_icons pg = [] \<longrightarrow>
        period_rows k ds ov p pg = []
        \<and> period_trace k ds ov p pg =
            [Goto (period_url ds ov p), WarnNoData k (fst p) (snd p),
             OkRows k (fst p) (snd p) 0, PageClose (period_url ds ov p)]))"
proof (intro impI conjI)
  assume "map_of DATASETS k = None \<and> month_iter today s e \<noteq> []"
  thus "collect today eng k s e ov = ([], Inl (KeyError k))"
    by (cases "month_iter today s e") (simp_all add: collect_def build_url_unknown)
next
  assume r: "map_of DATASETS k = Some ds"
  {
    assume "list_all (loads eng ds ov) (month_iter today s e)"
    thus "collect today eng k s e ov =
          (concat (map (\<lambda>p. period_trace k ds ov p (page_of eng ds ov p)) (month_iter today s e)),
           Inr (concat (map (\<lambda>p. period_rows k ds ov p (page_of eng ds ov p))
                  (month_iter today s e))))"
      using collect_loop_ok [OF r, of eng ov "month_iter today s e" "[]"]
      by (simp add: collect_def)
  }
  {
    assume a: "month_iter today s e = pre @ p # post \<and> list_all (loads eng ds ov) pre
          \<and> eng (period_url ds ov p) = Inl err"
    hence c: "collect today eng k s e ov =
          (concat (map (\<lambda>q. period_trace k ds ov q (page_of eng ds ov q)) pre)
             @ [Goto (period_url ds ov p), PageClose (period_url ds ov p)],
           Inl err)"
      using collect_loop_fail [OF r, of eng ov pre p err post "[]"]
      by (simp add: collect_def)
    show "collect today eng k s e ov =
          (concat (map (\<lambda>q. period_trace k ds ov q (page_of eng ds ov q)) pre)
             @ [Goto (period_url ds ov p), PageClose (period_url ds ov p)],
           Inl err)"
      by (rule c)
    show "visited (fst (collect today eng k s e ov)) = map (period_url ds ov) (pre @ [p])"
      unfolding c by (simp add: visited_append visited_concat_traces)
    show "closed (fst (collect today eng k s e ov)) = map (period_url ds ov) (pre @ [p])"
      unfolding c by (simp add: closed_append closed_concat_traces)
  }
  {
    assume "parse_table_icons pg = []"
    thus "period_rows k ds ov p pg = []"
      and "period_trace k ds ov p pg =
            [Goto (period_url ds ov p), WarnNoData k (fst p) (snd p),
             OkRows k (fst p) (snd p) 0, PageClose (period_url ds ov p)]"
      by (simp_all add: period_rows_def period_trace_def)
  }
qed

theorem collect_failure_aborts_witness:
  "map_of DATASETS ''house_rent'' = Some \<lparr>path = ''Mind_Rent_Cur'', default_item = 14\<rparr>
   \<and> list_all (loads flaky_engine \<lparr>path = ''Mind_Rent_Cur'', default_item = 14\<rparr> None)
        (month_iter (2024, 3) (2024, 3) (Some (2024, 3)))
   \<and> snd (collect (2024, 3) flaky_engine ''house_rent'' (2024, 3) (Some (2024, 3)) None)
       = Inr (period_rows ''house_rent'' \<lparr>path = ''Mind_Rent_Cur'', default_item = 14\<rparr> None
                (2024, 3) sample_page)
   \<and> month_iter (2024, 3) (2024, 1) (Some (2024, 3)) = [(2024, 1)] @ (2024, 2) # [(2024, 3)]
   \<and> list_all (loads flaky_engine \<lparr>path = ''Mind_Rent_Cur'', default_item = 14\<rparr> None) [(2024, 1)]
   \<and> flaky_engine (period_url \<lparr>path = ''Mind_Rent_Cur'', default_item = 14\<rparr> None (2024, 2))
       = Inl TimeoutError
   \<and> snd (collect (2024, 3) flaky_engine ''house_rent'' (2024, 1) (Some (2024, 3)) None)
       = Inl TimeoutError
   \<and> parse_table_icons [] = []
   \<and> period_rows ''house_rent'' \<lparr>path = ''Mind_Rent_Cur'', default_item = 14\<rparr> None (2024, 3) [] = []
   \<and> map_of DATASETS ''no_such_dataset'' = None
   \<and> month_iter (2024, 3) (2024, 3) (Some (2024, 3)) \<noteq> []
   \<and> collect (2024, 3) flaky_engine ''no_such_dataset'' (2024, 3) (Some (2024, 3)) None
       = ([], Inl (KeyError ''no_such_dataset''))"
proof -
  let ?ds = "\<lparr>path = ''Mind_Rent_Cur'', default_item = 14\<rparr>"
  have u: "map_of DATASETS ''no_such_dataset'' = None"
    by (simp add: DATASETS_def)
  have w: "month_iter (2024, 3) (2024, 3) (Some (2024, 3)) \<noteq> []"
    by (simp add: window_2024)
  from u w collect_failure_aborts [where k = "''no_such_dataset''" and eng = flaky_engine
      and ov = None and today = "(2024, 3)" and s = "(2024, 3)" and e = "Some (2024, 3)"]
  have d: "collect (2024, 3) flaky_engine ''no_such_dataset'' (2024, 3) (Some (2024, 3)) None
       = ([], Inl (KeyError ''no_such_dataset''))"
    by blast
  have l3: "list_all (loads flaky_engine ?ds None) (month_iter (2024, 3) (2024, 3) (Some (2024, 3)))"
    by (simp add: window_2024 flaky_engine_loads)
  have l1: "list_all (loads flaky_engine ?ds None) [(2024, 1)]"
    by (simp add: flaky_engine_loads)
  have e: "parse_table_icons [] = []"
    by (simp add: parse_table_icons_def)
  note t1 = collect_failure_aborts [where k = "''house_rent''" and ds = ?ds
      and eng = flaky_engine and ov = None and today = "(2024, 3)" and s = "(2024, 3)"
      and e = "Some (2024, 3)" and pre = "[]" and p = "(2024, 3)" and post = "[]"
      and err = TimeoutError and pg = "[]"]
  note t2 = collect_failure_aborts [where k = "''house_rent''" and ds = ?ds
      and eng = flaky_engine and ov = None and today = "(2024, 3)" and s = "(2024, 1)"
      and e = "Some (2024, 3)" and pre = "[(2024, 1)]" and p = "(2024, 2)"
      and post = "[(2024, 3)]" and err = TimeoutError and pg = "[]"]
  from t1 house_rent_registered l3
  have a: "snd (collect (2024, 3) flaky_engine ''house_rent'' (2024, 3) (Some (2024, 3)) None)
       = Inr (period_rows ''house_rent'' ?ds None (2024, 3) sample_page)"
    by (simp add: window_2024 flaky_engine_loads)
  from t2 house_rent_registered l1 window_2024(1) [of "(2024, 3)"] flaky_engine_loads(4)
  have b: "snd (collect (2024, 3) flaky_engine ''house_rent'' (2024, 1) (Some (2024, 3)) None)
       = Inl TimeoutError"
    by simp
  from t1 house_rent_registered e
  have c: "period_rows ''house_rent'' ?ds None (2024, 3) [] = []"
    by blast
  from house_rent_registered l3 a window_2024(1) [of "(2024, 3)"] l1 flaky_engine_loads(4) b e c
    u w d
  show ?thesis by blast
qed

text \<open>
  C4, as the specification states it, fails: the scorer does not clamp. The descriptor
  made of the expansion word, \<^verbatim>\<open>+9\<close> and the suffix scores 10.
\<close>

theorem score_range_counterexample:
  "score_weather (expansion @ [0x2B, 0x39, 0xB2E8, 0xACC4]) = Some 10"
  by (simp add: score_weather_def contraction_def expansion_def stability_def replace_space_def
      startswith_def decimal_value_def decimal_zeros_def)

text \<open>
  C4, amended. For every descriptor text the score is absent or an integer in
  [-10, 10] (the pattern holds one decimal digit), and both ends are reached. Every
  row a run of the Collector returns carries the score of its own weather descriptor,
  so its score is absent or in [-10, 10].
\<close>

theorem score_range:
  "(score_weather s = None \<or> (\<exists>v. score_weather s = Some v \<and> - 10 \<le> v \<and> v \<le> 10))
   \<and> (snd (collect today eng k st e ov) = Inr rows \<longrightarrow>
        list_all (\<lambda>r. row_weather_score r = score_weather (row_weather r)
                     \<and> (row_weather_score r = None
                         \<or> (\<exists>v. row_weather_score r = Some v \<and> - 10 \<le> v \<and> v \<le> 10))) rows)
   \<and> score_weather (expansion @ [0x2B, 0x39, 0xB2E8, 0xACC4]) = Some 10
   \<and> score_weather (contraction @ [0x2D, 0x39, 0xB2E8, 0xACC4]) = Some (- 10)"
proof -
  have a: "score_weather x = None \<or> (\<exists>v. score_weather x = Some v \<and> - 10 \<le> v \<and> v \<le> 10)"
    for x
    using score_weather_range [of x] by (cases "score_weather x") auto
  have b: "list_all (\<lambda>r. row_weather_score r = score_weather (row_weather r)
                     \<and> (row_weather_score r = None
                         \<or> (\<exists>v. row_weather_score r = Some v \<and> - 10 \<le> v \<and> v \<le> 10))) rows"
    if h: "snd (collect today eng k st e ov) = Inr rows"
  proof (rule collect_loop_inv [where k = k and ov = ov and eng = eng and acc = "[]"
        and ps = "month_iter today st e"])
    show "snd (collect_loop eng k ov (month_iter today st e) []) = Inr rows"
      using h by (simp add: collect_def)
    show "list_all (\<lambda>r. row_weather_score r = score_weather (row_weather r)
                     \<and> (row_weather_score r = None
                         \<or> (\<exists>v. row_weather_score r = Some v \<and> - 10 \<le> v \<and> v \<le> 10))) []"
      by simp
  next
    fix item y m u entry
    show "row_weather_score (make_row k item y m u entry)
            = score_weather (row_weather (make_row k item y m u entry))
          \<and> (row_weather_score (make_row k item y m u entry) = None
              \<or> (\<exists>v. row_weather_score (make_row k item y m u entry) = Some v
                     \<and> - 10 \<le> v \<and> v \<le> 10))"
      using a [of "row_weather (make_row k item y m u entry)"]
      by (simp add: make_row_fields(2))
  qed
  have c: "score_weather (expansion @ [0x2B, 0x39, 0xB2E8, 0xACC4]) = Some 10"
    "score_weather (contraction @ [0x2D, 0x39, 0xB2E8, 0xACC4]) = Some (- 10)"
    by (simp_all add: score_weather_def contraction_def expansion_def stability_def
        replace_space_def startswith_def decimal_value_def decimal_zeros_def)
  from a [of s] b c show ?thesis by blast
qed

theorem score_range_witness:
  "snd (collect (2024, 3) flaky_engine ''house_rent'' (2024, 3) (Some (2024, 3)) None)
     = Inr (period_rows ''house_rent'' \<lparr>path = ''Mind_Rent_Cur'', default_item = 14\<rparr> None
              (2024, 3) sample_page)
   \<and> map row_weather_score
        (period_rows ''house_rent'' \<lparr>path = ''Mind_Rent_Cur'', default_item = 14\<rparr> None
           (2024, 3) sample_page) = [Some (- 3)]
   \<and> list_all (\<lambda>r. row_weather_score r = score_weather (row_weather r)
                     \<and> (row_weather_score r = None
                         \<or> (\<exists>v. row_weather_score r = Some v \<and> - 10 \<le> v \<and> v \<le> 10)))
        (period_rows ''house_rent'' \<lparr>path = ''Mind_Rent_Cur'', default_item = 14\<rparr> None
           (2024, 3) sample_page)"
proof -
  let ?ds = "\<lparr>path = ''Mind_Rent_Cur'', default_item = 14\<rparr>"
  have l: "list_all (loads flaky_engine ?ds None) [(2024, 3)]"
    by (simp add: flaky_engine_loads)
  have a: "snd (collect (2024, 3) flaky_engine ''house_rent'' (2024, 3) (Some (2024, 3)) None)
     = Inr (period_rows ''house_rent'' ?ds None (2024, 3) sample_page)"
    unfolding collect_def window_2024 collect_loop_ok [OF house_rent_registered l]
    by (simp add: flaky_engine_loads)
  have b: "map row_weather_score (period_rows ''house_rent'' ?ds None (2024, 3) sample_page)
      = [Some (- 3)]"
    by (simp add: sample_rows)
  from a score_range [of "[]" "(2024, 3)" flaky_engine "''house_rent''" "(2024, 3)"
      "Some (2024, 3)" None "period_rows ''house_rent'' ?ds None (2024, 3) sample_page"]
  have c: "list_all (\<lambda>r. row_weather_score r = score_weather (row_weather r)
                     \<and> (row_weather_score r = None
                         \<or> (\<exists>v. row_weather_score r = Some v \<and> - 10 \<le> v \<and> v \<le> 10)))
        (period_rows ''house_rent'' ?ds None (2024, 3) sample_page)"
    by blast
  from a b c show ?thesis by blast
qed

text \<open>
  C5. The run of \<open>collect_incremental\<close> is the Collector's loop over the planned window:
  same result, same pages loaded. The window is the sequence from the default start
  through the end when the gateway reports no prior period, and from the successor of
  the prior period \<open>P\<close> through the end when it reports \<open>P\<close>. Whenever the computed
  start exceeds the end, as it does when the prior period equals the end, the
  window is empty, no page is loaded, the result is the empty row list and not an
  error, and the up-to-date message is printed. The successor of (2024, 9) is
  (2024, 10). For a registered key whose pages all load, the rows returned are those
  of the periods of the window, in order.
\<close>

theorem incremental_planner:
  "snd (collect_incremental today latest eng k d e ov)
     = snd (collect_loop eng k ov (planned_window today latest d e) [])
   \<and> visited (fst (collect_incremental today latest eng k d e ov))
     = visited (fst (collect_loop eng k ov (planned_window today latest d e) []))
   \<and> planned_window today None d e
     = month_iter today d (Some (case e of None \<Rightarrow> today | Some x \<Rightarrow> x))
   \<and> planned_window today (Some (py, pm)) d e
     = month_iter today (next_month py pm) (Some (case e of None \<Rightarrow> today | Some x \<Rightarrow> x))
   \<and> (ym_gt (case latest of None \<Rightarrow> d | Some l \<Rightarrow> next_month (fst l) (snd l))
             (case e of None \<Rightarrow> today | Some x \<Rightarrow> x) \<longrightarrow>
        planned_window today latest d e = []
        \<and> snd (collect_incremental today latest eng k d e ov) = Inr []
        \<and> visited (fst (collect_incremental today latest eng k d e ov)) = []
        \<and> InfoUpToDate k \<in> set (fst (collect_incremental today latest eng k d e ov)))
   \<and> (latest = Some (case e of None \<Rightarrow> today | Some x \<Rightarrow> x) \<longrightarrow>
        planned_window today latest d e = []
        \<and> snd (collect_incremental today latest eng k d e ov) = Inr []
        \<and> visited (fst (collect_incremental today latest eng k d e ov)) = [])
   \<and> next_month 2024 9 = (2024, 10)
   \<and> (map_of DATASETS k = Some ds
        \<and> list_all (loads eng ds ov) (planned_window today latest d e) \<longrightarrow>
        snd (collect_incremental today latest eng k d e ov)
          = Inr (concat (map (\<lambda>p. period_rows k ds ov p (page_of eng ds ov p))
                   (planned_window today latest d e))))"
proof -
  note w = collect_incremental_window [of today latest eng k d e ov]
  have b: "planned_window today None d e
     = month_iter today d (Some (case e of None \<Rightarrow> today | Some x \<Rightarrow> x))"
    "planned_window today (Some (py, pm)) d e
     = month_iter today (next_month py pm) (Some (case e of None \<Rightarrow> today | Some x \<Rightarrow> x))"
    by (simp_all add: planned_window_def)
  have c: "ym_gt (case latest of None \<Rightarrow> d | Some l \<Rightarrow> next_month (fst l) (snd l))
             (case e of None \<Rightarrow> today | Some x \<Rightarrow> x) \<longrightarrow>
        planned_window today latest d e = []
        \<and> snd (collect_incremental today latest eng k d e ov) = Inr []
        \<and> visited (fst (collect_incremental today latest eng k d e ov)) = []
        \<and> InfoUpToDate k \<in> set (fst (collect_incremental today latest eng k d e ov))"
    using collect_incremental_up_to_date [where latest = latest and d = d and e = e
        and today = today and eng = eng and k = k and ov = ov] by blast
  have g: "ym_gt (case latest of None \<Rightarrow> d | Some l \<Rightarrow> next_month (fst l) (snd l))
             (case e of None \<Rightarrow> today | Some x \<Rightarrow> x)"
    if "latest = Some (case e of None \<Rightarrow> today | Some x \<Rightarrow> x)"
    using that next_month_gt [of "fst (case e of None \<Rightarrow> today | Some x \<Rightarrow> x)"
        "snd (case e of None \<Rightarrow> today | Some x \<Rightarrow> x)"]
    by simp
  have f: "next_month 2024 9 = (2024, 10)"
    by (simp add: next_month_def)
  have h: "snd (collect_incremental today latest eng k d e ov)
          = Inr (concat (map (\<lambda>p. period_rows k ds ov p (page_of eng ds ov p))
                   (planned_window today latest d e)))"
    if "map_of DATASETS k = Some ds"
      "list_all (loads eng ds ov) (planned_window today latest d e)"
    using w collect_loop_ok [OF that, of "[]"] by simp
  from w b c g f h show ?thesis by blast
qed

theorem incremental_planner_witness:
  "ym_gt (case Some (2024, 3) of None \<Rightarrow> (2015, 1) | Some l \<Rightarrow> next_month (fst l) (snd l))
         (case None of None \<Rightarrow> (2024, 3) | Some x \<Rightarrow> x)
   \<and> planned_window (2024, 3) (Some (2024, 3)) (2015, 1) None = []
   \<and> snd (collect_incremental (2024, 3) (Some (2024, 3)) flaky_engine ''house_rent'' (2015, 1)
            None None) = Inr []
   \<and> visited (fst (collect_incremental (2024, 3) (Some (2024, 3)) flaky_engine ''house_rent''
                     (2015, 1) None None)) = []
   \<and> map_of DATASETS ''house_rent'' = Some \<lparr>path = ''Mind_Rent_Cur'', default_item = 14\<rparr>
   \<and> planned_window (2024, 3) (Some (2024, 2)) (2015, 1) None = [(2024, 3)]
   \<and> list_all (loads flaky_engine \<lparr>path = ''Mind_Rent_Cur'', default_item = 14\<rparr> None)
        (planned_window (2024, 3) (Some (2024, 2)) (2015, 1) None)
   \<and> snd (collect_incremental (2024, 3) (Some (2024, 2)) flaky_engine ''house_rent'' (2015, 1)
            None None)
       = Inr (concat (map (\<lambda>p. period_rows ''house_rent''
                                  \<lparr>path = ''Mind_Rent_Cur'', default_item = 14\<rparr> None p
                                  (page_of flaky_engine
                                     \<lparr>path = ''Mind_Rent_Cur'', default_item = 14\<rparr> None p))
                (planned_window (2024, 3) (Some (2024, 2)) (2015, 1) None)))"
proof -
  let ?ds = "\<lparr>path = ''Mind_Rent_Cur'', default_item = 14\<rparr>"
  have g: "ym_gt (case Some (2024, 3) of None \<Rightarrow> (2015, 1) | Some l \<Rightarrow> next_month (fst l) (snd l))
         (case None of None \<Rightarrow> (2024, 3) | Some x \<Rightarrow> x)"
    by (simp add: next_month_def ym_gt_def)
  have p: "planned_window (2024, 3) (Some (2024, 2)) (2015, 1) None = [(2024, 3)]"
    by (simp add: planned_window_def next_month_def window_2024)
  have l: "list_all (loads flaky_engine ?ds None)
        (planned_window (2024, 3) (Some (2024, 2)) (2015, 1) None)"
    by (simp add: p flaky_engine_loads)
  note t1 = incremental_planner [where today = "(2024, 3)" and latest = "Some (2024, 3)"
      and eng = flaky_engine and k = "''house_rent''" and d = "(2015, 1)" and e = None
      and ov = None and py = 2024 and pm = 3 and ds = ?ds]
  note t2 = incremental_planner [where today = "(2024, 3)" and latest = "Some (2024, 2)"
      and eng = flaky_engine and k = "''house_rent''" and d = "(2015, 1)" and e = None
      and ov = None and py = 2024 and pm = 2 and ds = ?ds]
  from t1 g have a: "planned_window (2024, 3) (Some (2024, 3)) (2015, 1) None = []
    \<and> snd (collect_incremental (2024, 3) (Some (2024, 3)) flaky_engine ''house_rent'' (2015, 1)
            None None) = Inr []
    \<and> visited (fst (collect_incremental (2024, 3) (Some (2024, 3)) flaky_engine ''house_rent''
                     (2015, 1) None None)) = []"
    by blast
  from t2 house_rent_registered l
  have b: "snd (collect_incremental (2024, 3) (Some (2024, 2)) flaky_engine ''house_rent'' (2015, 1)
            None None)
       = Inr (concat (map (\<lambda>p. period_rows ''house_rent'' ?ds None p
                                  (page_of flaky_engine ?ds None p))
                (planned_window (2024, 3) (Some (2024, 2)) (2015, 1) None)))"
    by blast
  have q: "Some (2024, 3) = Some (case None of None \<Rightarrow> (2024, 3) | Some x \<Rightarrow> x)"
    by simp
  from t1 q have a': "planned_window (2024, 3) (Some (2024, 3)) (2015, 1) None = []"
    by blast
  from g a a' house_rent_registered p l b show ?thesis by blast
qed

text \<open>
  C10. An item-code override of 0 is the same as no override: \<open>build_url\<close>, \<open>collect\<close>
  and \<open>collect_incremental\<close> return the same for both, for every dataset key, engine and
  window. For a registered key the URL carries the dataset's default item code, and so
  does every row the run returns.
\<close>

theorem zero_override_ignored:
  "build_url k y m (Some 0) = build_url k y m None
   \<and> collect today eng k s e (Some 0) = collect today eng k s e None
   \<and> collect_incremental today latest eng k d e (Some 0)
       = collect_incremental today latest eng k d e None
   \<and> (map_of DATASETS k = Some ds \<longrightarrow>
        build_url k y m (Some 0) =
          Inr (BASE @ ''/'' @ path ds @ ''?area_cd=11&Gbn=MONTH&year='' @ str_int y
               @ ''&month='' @ format_02d m
               @ (if path ds = ''SystemIntro'' then ''&jin=Jindan'' else [])
               @ ''&item_cd='' @ str_int (default_item ds)))
   \<and> (map_of DATASETS k = Some ds \<and> snd (collect today eng k s e (Some 0)) = Inr rows \<longrightarrow>
        list_all (\<lambda>r. row_item_cd r = default_item ds) rows)"
proof -
  have a: "build_url k y m (Some 0) =
          Inr (BASE @ ''/'' @ path ds @ ''?area_cd=11&Gbn=MONTH&year='' @ str_int y
               @ ''&month='' @ format_02d m
               @ (if path ds = ''SystemIntro'' then ''&jin=Jindan'' else [])
               @ ''&item_cd='' @ str_int (default_item ds))"
    if "map_of DATASETS k = Some ds"
    using build_url_registered [OF that, of y m "Some 0"] by (simp add: item_or_def)
  have b: "list_all (\<lambda>r. row_item_cd r = default_item ds) rows"
    if r: "map_of DATASETS k = Some ds" and h: "snd (collect today eng k s e (Some 0)) = Inr rows"
  proof (rule collect_loop_inv [where k = k and ov = "Some 0" and eng = eng and acc = "[]"
        and ps = "month_iter today s e"])
    show "snd (collect_loop eng k (Some 0) (month_iter today s e) []) = Inr rows"
      using h by (simp add: collect_def)
    show "list_all (\<lambda>r. row_item_cd r = default_item ds) []"
      by simp
  next
    fix item y' m' u entry
    assume "row_item k (Some 0) = Inr item"
    hence "item = default_item ds"
      using row_item_registered [OF r, of "Some 0"] by (simp add: item_or_def)
    thus "row_item_cd (make_row k item y' m' u entry) = default_item ds"
      by (simp add: make_row_fields(1))
  qed
  from a b build_url_zero [of k y m] collect_zero [of today eng k s e]
    collect_incremental_zero [of today latest eng k d e]
  show ?thesis by blast
qed

theorem zero_override_ignored_witness:
  "map_of DATASETS ''house_rent'' = Some \<lparr>path = ''Mind_Rent_Cur'', default_item = 14\<rparr>
   \<and> snd (collect (2024, 3) flaky_engine ''house_rent'' (2024, 3) (Some (2024, 3)) (Some 0))
       = Inr (period_rows ''house_rent'' \<lparr>path = ''Mind_Rent_Cur'', default_item = 14\<rparr> (Some 0)
                (2024, 3) sample_page)
   \<and> map row_item_cd
        (period_rows ''house_rent'' \<lparr>path = ''Mind_Rent_Cur'', default_item = 14\<rparr> (Some 0)
           (2024, 3) sample_page) = [14]
   \<and> list_all (\<lambda>r. row_item_cd r = default_item \<lparr>path = ''Mind_Rent_Cur'', default_item = 14\<rparr>)
        (period_rows ''house_rent'' \<lparr>path = ''Mind_Rent_Cur'', default_item = 14\<rparr> (Some 0)
           (2024, 3) sample_page)
   \<and> build_url ''house_rent'' 2024 3 (Some 0) =
       Inr ''https://kremap.krihs.re.kr/menu2/Mind_Rent_Cur?area_cd=11&Gbn=MONTH&year=2024&month=03&item_cd=14''"
proof -
  let ?ds = "\<lparr>path = ''Mind_Rent_Cur'', default_item = 14\<rparr>"
  have l: "list_all (loads flaky_engine ?ds (Some 0)) [(2024, 3)]"
    by (simp add: flaky_engine_loads)
  have a: "snd (collect (2024, 3) flaky_engine ''house_rent'' (2024, 3) (Some (2024, 3)) (Some 0))
     = Inr (period_rows ''house_rent'' ?ds (Some 0) (2024, 3) sample_page)"
    unfolding collect_def window_2024 collect_loop_ok [OF house_rent_registered l]
    by (simp add: flaky_engine_loads)
  have b: "map row_item_cd (period_rows ''house_rent'' ?ds (Some 0) (2024, 3) sample_page) = [14]"
    by (simp add: sample_rows item_or_def)
  note t = zero_override_ignored [where k = "''house_rent''" and y = 2024 and m = 3
      and today = "(2024, 3)" and eng = flaky_engine and s = "(2024, 3)"
      and e = "Some (2024, 3)" and latest = None and d = "(2015, 1)" and ds = ?ds
      and rows = "period_rows ''house_rent'' ?ds (Some 0) (2024, 3) sample_page"]
  from t house_rent_registered a
  have c: "list_all (\<lambda>r. row_item_cd r = default_item ?ds)
        (period_rows ''house_rent'' ?ds (Some 0) (2024, 3) sample_page)"
    by blast
  have u: "BASE @ ''/'' @ path ?ds @ ''?area_cd=11&Gbn=MONTH&year='' @ str_int 2024
               @ ''&month='' @ format_02d 3
               @ (if path ?ds = ''SystemIntro'' then ''&jin=Jindan'' else [])
               @ ''&item_cd='' @ str_int (default_item ?ds)
      = ''https://kremap.krihs.re.kr/menu2/Mind_Rent_Cur?area_cd=11&Gbn=MONTH&year=2024&month=03&item_cd=14''"
    by code_simp
  from t house_rent_registered
  have d: "build_url ''house_rent'' 2024 3 (Some 0) =
       Inr ''https://kremap.krihs.re.kr/menu2/Mind_Rent_Cur?area_cd=11&Gbn=MONTH&year=2024&month=03&item_cd=14''"
    unfolding u [symmetric] by blast
  from house_rent_registered a b c d show ?thesis by blast
qed

section \<open>Table extraction\<close>

lemma max_by_key_upt:
  "b < i \<Longrightarrow> i \<le> n \<Longrightarrow> (\<forall>j < i. f j \<le> f b \<and> (j < b \<longrightarrow> f j < f b)) \<Longrightarrow>
   max_by_key f [i ..< n] b < n
   \<and> (\<forall>j < n. f j \<le> f (max_by_key f [i ..< n] b)
               \<and> (j < max_by_key f [i ..< n] b \<longrightarrow> f j < f (max_by_key f [i ..< n] b)))"
proof (induction "n - i" arbitrary: i b)
  case 0
  hence "i = n" by simp
  with 0 show ?case by simp
next
  case (Suc d)
  hence lt: "i < n" by simp
  hence u: "[i ..< n] = i # [Suc i ..< n]" by (rule upt_conv_Cons)
  show ?case
  proof (cases "f i > f b")
    case True
    have inv: "\<forall>j < Suc i. f j \<le> f i \<and> (j < i \<longrightarrow> f j < f i)"
    proof (intro allI impI)
      fix j assume "j < Suc i"
      show "f j \<le> f i \<and> (j < i \<longrightarrow> f j < f i)"
      proof (cases "j = i")
        case True thus ?thesis by simp
      next
        case False
        with \<open>j < Suc i\<close> have "j < i" by simp
        with Suc.prems(3) have "f j \<le> f b" by blast
        with \<open>f b < f i\<close> show ?thesis by simp
      qed
    qed
    have "d = n - Suc i" using Suc.hyps(2) by simp
    from Suc.hyps(1) [OF this _ _ inv] lt
    have "max_by_key f [Suc i ..< n] i < n
      \<and> (\<forall>j < n. f j \<le> f (max_by_key f [Suc i ..< n] i)
               \<and> (j < max_by_key f [Suc i ..< n] i \<longrightarrow> f j < f (max_by_key f [Suc i ..< n] i)))"
      by simp
    with True u show ?thesis by simp
  next
    case False
    have inv: "\<forall>j < Suc i. f j \<le> f b \<and> (j < b \<longrightarrow> f j < f b)"
    proof (intro allI impI)
      fix j assume "j < Suc i"
      show "f j \<le> f b \<and> (j < b \<longrightarrow> f j < f b)"
      proof (cases "j = i")
        case True
        with False Suc.prems(1) show ?thesis by simp
      next
        case False
        with \<open>j < Suc i\<close> have "j < i" by simp
        with Suc.prems(3) show ?thesis by blast
      qed
    qed
    have "d = n - Suc i" using Suc.hyps(2) by simp
    from Suc.hyps(1) [OF this _ _ inv] lt Suc.prems(1)
    have "max_by_key f [Suc i ..< n] b < n
      \<and> (\<forall>j < n. f j \<le> f (max_by_key f [Suc i ..< n] b)
               \<and> (j < max_by_key f [Suc i ..< n] b \<longrightarrow> f j < f (max_by_key f [Suc i ..< n] b)))"
      by simp
    with False u show ?thesis by simp
  qed
qed

lemma select_table_max:
  assumes "tables \<noteq> []"
  shows "select_table tables < length tables
   \<and> (\<forall>j < length tables.
        length (tables ! j) \<le> length (tables ! select_table tables)
        \<and> (j < select_table tables \<longrightarrow>
             length (tables ! j) < length (tables ! select_table tables)))"
proof -
  define sizes where "sizes = map length tables"
  define r where "r = max_by_key (\<lambda>i. sizes ! i) [1 ..< length tables] 0"
  from assms have n: "1 \<le> length tables" by (cases tables) simp_all
  have m: "r < length tables
   \<and> (\<forall>j < length tables. sizes ! j \<le> sizes ! r \<and> (j < r \<longrightarrow> sizes ! j < sizes ! r))"
    unfolding r_def using n by (intro max_by_key_upt) auto
  have sz: "sizes ! j = length (tables ! j)" if "j < length tables" for j
    using that by (simp add: sizes_def)
  have s: "select_table tables = r"
    by (simp add: select_table_def Let_def r_def sizes_def)
  from m sz have "\<forall>j < length tables.
      length (tables ! j) \<le> length (tables ! r)
      \<and> (j < r \<longrightarrow> length (tables ! j) < length (tables ! r))"
    by metis
  with m show ?thesis unfolding s by blast
qed

lemma select_table_two:
  "length a < length b \<Longrightarrow> select_table [a, b] = 1 \<and> select_table [b, a] = 0"
  by (simp add: select_table_def)

lemma select_table_tie: "length a = length b \<Longrightarrow> select_table [a, b] = 0"
  by (simp add: select_table_def)

text \<open>
  C8. Among the candidate tables of a page, the extractor reads the one at index
  \<open>select_table\<close>: a candidate with the most rows, and the first of those in document
  order (every earlier candidate has strictly fewer rows). Of a 3-row and a 40-row
  candidate it reads the 40-row one, in either order; of two candidates with equally
  many rows it reads the first. With no candidate the result is the empty mapping.
\<close>

theorem table_selection:
  "(tables \<noteq> [] \<longrightarrow>
      select_table tables < length tables
      \<and> (\<forall>j < length tables.
           length (tables ! j) \<le> length (tables ! select_table tables)
           \<and> (j < select_table tables \<longrightarrow>
                length (tables ! j) < length (tables ! select_table tables)))
      \<and> parse_table_icons tables = rows_loop (tables ! select_table tables) [])
   \<and> (length a = 3 \<and> length b = 40 \<longrightarrow>
        parse_table_icons [a, b] = rows_loop b [] \<and> parse_table_icons [b, a] = rows_loop b [])
   \<and> (length a = length b \<longrightarrow> parse_table_icons [a, b] = rows_loop a [])
   \<and> parse_table_icons [] = []"
proof -
  have x: "select_table tables < length tables
      \<and> (\<forall>j < length tables.
           length (tables ! j) \<le> length (tables ! select_table tables)
           \<and> (j < select_table tables \<longrightarrow>
                length (tables ! j) < length (tables ! select_table tables)))
      \<and> parse_table_icons tables = rows_loop (tables ! select_table tables) []"
    if "tables \<noteq> []"
    using select_table_max [OF that] that by (simp add: parse_table_icons_def)
  have y: "parse_table_icons [a, b] = rows_loop b [] \<and> parse_table_icons [b, a] = rows_loop b []"
    if "length a = 3 \<and> length b = 40"
    using that select_table_two [of a b] by (simp add: parse_table_icons_def)
  have z: "parse_table_icons [a, b] = rows_loop a []" if "length a = length b"
    using that select_table_tie [of a b] by (simp add: parse_table_icons_def)
  have e: "parse_table_icons [] = []"
    by (simp add: parse_table_icons_def)
  from x y z e show ?thesis by blast
qed

theorem table_selection_witness:
  "[replicate 3 heading_row, replicate 40 single_icon_row] \<noteq> []
   \<and> select_table [replicate 3 heading_row, replicate 40 single_icon_row]
       < length [replicate 3 heading_row, replicate 40 single_icon_row]
   \<and> length (replicate 3 heading_row) = 3 \<and> length (replicate 40 single_icon_row) = 40
   \<and> parse_table_icons [replicate 3 heading_row, replicate 40 single_icon_row]
       = rows_loop (replicate 40 single_icon_row) []
   \<and> length [heading_row] = length [single_icon_row]
   \<and> parse_table_icons [[heading_row], [single_icon_row]] = rows_loop [heading_row] []"
proof -
  have n: "[replicate 3 heading_row, replicate 40 single_icon_row] \<noteq> []"
    and l: "length (replicate 3 heading_row) = 3 \<and> length (replicate 40 single_icon_row) = 40"
    and q: "length [heading_row] = length [single_icon_row]"
    by simp_all
  from n table_selection [of "[replicate 3 heading_row, replicate 40 single_icon_row]"]
  have a: "select_table [replicate 3 heading_row, replicate 40 single_icon_row]
       < length [replicate 3 heading_row, replicate 40 single_icon_row]"
    by blast
  from l table_selection [where a = "replicate 3 heading_row"
      and b = "replicate 40 single_icon_row"]
  have b: "parse_table_icons [replicate 3 heading_row, replicate 40 single_icon_row]
       = rows_loop (replicate 40 single_icon_row) []"
    by blast
  from q table_selection [where a = "[heading_row]" and b = "[single_icon_row]"]
  have c: "parse_table_icons [[heading_row], [single_icon_row]] = rows_loop [heading_row] []"
    by blast
  from n l q a b c show ?thesis by blast
qed

lemma parse_row_short: "length (tds r) < 2 \<Longrightarrow> parse_row r = None"
  by (cases "tds r" rule: list.exhaust; simp add: parse_row_def split: list.splits)

lemma parse_row_skip:
  "tds r = td0 # td1 # others \<Longrightarrow> strip td0 = [] \<or> strip td0 = header_caption \<Longrightarrow>
   parse_row r = None"
  by (auto simp: parse_row_def Let_def)

lemma parse_row_emit:
  "tds r = td0 # td1 # others \<Longrightarrow> strip td0 \<noteq> [] \<Longrightarrow> strip td0 \<noteq> header_caption \<Longrightarrow>
   parse_row r =
     Some (strip td0,
           \<lparr>weather = (case row_alts r of [] \<Rightarrow> [] | a # as \<Rightarrow> a),
            mom = (if 2 \<le> length (row_alts r) then last (row_alts r) else [])\<rparr>)"
  by (simp add: parse_row_def Let_def)

lemma parse_single_row: "parse_table_icons [[r]] = (case parse_row r of None \<Rightarrow> [] | Some kv \<Rightarrow> [kv])"
  by (simp add: parse_table_icons_def select_table_def split: option.splits)

text \<open>
  C9, as the specification states it, fails where a text carries white space: the
  source trims every cell text and alt text before it tests and stores them. In the
  row whose images have the alt texts blank (one space), weather icon and
  month-over-month icon, the blank alt text is not empty, so by the claim it is the
  first collected text and the weather descriptor; the source drops it and takes the
  weather icon.
\<close>

theorem row_extraction_counterexample:
  "parse_row blank_alt_row =
     Some ([0xAC15, 0xB0A8, 0xAD6C],
           \<lparr>weather = [0xC218, 0xCD95, 0x2B, 0x32, 0xB2E8, 0xACC4], mom = [0x2191]\<rparr>)
   \<and> spec_parse_row blank_alt_row =
     Some ([0xAC15, 0xB0A8, 0xAD6C], \<lparr>weather = [0x20], mom = [0x2191]\<rparr>)"
  by (simp add: parse_row_def spec_parse_row_def blank_alt_row_def row_alts_def strip_def
      isspace_def header_caption_def Let_def)

text \<open>
  C9, amended. For every row: a row with fewer than two cells is skipped; a row whose
  first-cell text, trimmed of surrounding white space, is empty or equals the header
  caption is skipped; otherwise the row is stored under the trimmed first-cell text,
  the alt texts of its images are trimmed and those that are then not empty are
  collected in document order (a missing attribute counts as empty), the first
  collected text is the weather descriptor, the last is the month-over-month
  descriptor when at least two were collected, the month-over-month descriptor is
  empty when exactly one was collected, and both are empty when none was. A table of
  one row yields exactly what the row yields, and the row loop stores each row's
  entry in turn.
\<close>

theorem row_extraction:
  "(length (tds r) < 2 \<longrightarrow> parse_row r = None)
   \<and> (tds r = td0 # td1 # others \<longrightarrow>
        (strip td0 = [] \<or> strip td0 = header_caption \<longrightarrow> parse_row r = None)
        \<and> (strip td0 \<noteq> [] \<and> strip td0 \<noteq> header_caption \<longrightarrow>
             (row_alts r = [] \<longrightarrow>
                parse_row r = Some (strip td0, \<lparr>weather = [], mom = []\<rparr>))
             \<and> (row_alts r = [x] \<longrightarrow>
                parse_row r = Some (strip td0, \<lparr>weather = x, mom = []\<rparr>))
             \<and> (row_alts r = x # y # zs \<longrightarrow>
                parse_row r = Some (strip td0, \<lparr>weather = x, mom = last (y # zs)\<rparr>))))
   \<and> row_alts r =
       filter (\<lambda>t. t \<noteq> []) (map (\<lambda>a. strip (case a of None \<Rightarrow> [] | Some t \<Rightarrow> t)) (imgs r))
   \<and> parse_table_icons [[r]] = (case parse_row r of None \<Rightarrow> [] | Some kv \<Rightarrow> [kv])
   \<and> rows_loop (r # rs) data =
       rows_loop rs (case parse_row r of None \<Rightarrow> data
                     | Some kv \<Rightarrow> dict_set data (fst kv) (snd kv))"
proof -
  have a: "length (tds r) < 2 \<longrightarrow> parse_row r = None"
    by (simp add: parse_row_short)
  have b: "parse_row r = None"
    if "tds r = td0 # td1 # others" "strip td0 = [] \<or> strip td0 = header_caption"
    using that by (rule parse_row_skip)
  have c: "(row_alts r = [] \<longrightarrow>
                parse_row r = Some (strip td0, \<lparr>weather = [], mom = []\<rparr>))
             \<and> (row_alts r = [x] \<longrightarrow>
                parse_row r = Some (strip td0, \<lparr>weather = x, mom = []\<rparr>))
             \<and> (row_alts r = x # y # zs \<longrightarrow>
                parse_row r = Some (strip td0, \<lparr>weather = x, mom = last (y # zs)\<rparr>))"
    if "tds r = td0 # td1 # others" "strip td0 \<noteq> [] \<and> strip td0 \<noteq> header_caption"
    using that by (simp add: parse_row_emit)
  have d: "row_alts r =
       filter (\<lambda>t. t \<noteq> []) (map (\<lambda>a. strip (case a of None \<Rightarrow> [] | Some t \<Rightarrow> t)) (imgs r))"
    by (simp add: row_alts_def)
  have e: "rows_loop (r # rs) data =
       rows_loop rs (case parse_row r of None \<Rightarrow> data
                     | Some kv \<Rightarrow> dict_set data (fst kv) (snd kv))"
    by (simp split: option.splits)
  from a b c d e parse_single_row [of r] show ?thesis by blast
qed

theorem row_extraction_witness:
  "length (tds one_cell_row) < 2 \<and> parse_row one_cell_row = None
   \<and> tds heading_row = [0xC9C0, 0xC5ED, 0xBA85] # [0x41] # []
   \<and> strip [0xC9C0, 0xC5ED, 0xBA85] = header_caption \<and> parse_row heading_row = None
   \<and> tds padded_row = [0x20, 0xAC15, 0xB0A8, 0xAD6C, 0x0A] # [0x31] # []
   \<and> strip [0x20, 0xAC15, 0xB0A8, 0xAD6C, 0x0A] = [0xAC15, 0xB0A8, 0xAD6C]
   \<and> row_alts padded_row = [0xC218, 0xCD95, 0x2B, 0x32, 0xB2E8, 0xACC4] # [0x2191] # []
   \<and> parse_row padded_row =
       Some ([0xAC15, 0xB0A8, 0xAD6C],
             \<lparr>weather = [0xC218, 0xCD95, 0x2B, 0x32, 0xB2E8, 0xACC4], mom = [0x2191]\<rparr>)
   \<and> tds single_icon_row = [0xAC15, 0xB0A8, 0xAD6C] # [0x31] # []
   \<and> row_alts single_icon_row = [[0xC218, 0xCD95, 0x2B, 0x32, 0xB2E8, 0xACC4]]
   \<and> parse_row single_icon_row =
       Some ([0xAC15, 0xB0A8, 0xAD6C],
             \<lparr>weather = [0xC218, 0xCD95, 0x2B, 0x32, 0xB2E8, 0xACC4], mom = []\<rparr>)
   \<and> tds no_icon_row = [0xAC15, 0xB0A8, 0xAD6C] # [0x31] # []
   \<and> row_alts no_icon_row = []
   \<and> parse_row no_icon_row = Some ([0xAC15, 0xB0A8, 0xAD6C], \<lparr>weather = [], mom = []\<rparr>)"
proof -
  have s5: "tds no_icon_row = [0xAC15, 0xB0A8, 0xAD6C] # [0x31] # []"
    "row_alts no_icon_row = []"
    by (simp_all add: no_icon_row_def strip_def isspace_def row_alts_def)
  have s1: "length (tds one_cell_row) < 2"
    by (simp add: one_cell_row_def)
  have s2: "tds heading_row = [0xC9C0, 0xC5ED, 0xBA85] # [0x41] # []"
    "strip [0xC9C0, 0xC5ED, 0xBA85] = header_caption"
    by (simp_all add: heading_row_def strip_def isspace_def header_caption_def)
  have s3: "tds padded_row = [0x20, 0xAC15, 0xB0A8, 0xAD6C, 0x0A] # [0x31] # []"
    "strip [0x20, 0xAC15, 0xB0A8, 0xAD6C, 0x0A] = [0xAC15, 0xB0A8, 0xAD6C]"
    "row_alts padded_row = [0xC218, 0xCD95, 0x2B, 0x32, 0xB2E8, 0xACC4] # [0x2191] # []"
    by (simp_all add: padded_row_def strip_def isspace_def row_alts_def)
  have s4: "tds single_icon_row = [0xAC15, 0xB0A8, 0xAD6C] # [0x31] # []"
    "strip [0xAC15, 0xB0A8, 0xAD6C] = [0xAC15, 0xB0A8, 0xAD6C]"
    "row_alts single_icon_row = [[0xC218, 0xCD95, 0x2B, 0x32, 0xB2E8, 0xACC4]]"
    by (simp_all add: single_icon_row_def strip_def isspace_def row_alts_def)
  have ne: "[0xAC15, 0xB0A8, 0xAD6C] \<noteq> ([]::nat list)
      \<and> [0xAC15, 0xB0A8, 0xAD6C] \<noteq> header_caption"
    by (simp add: header_caption_def)
  from s1 row_extraction [where r = one_cell_row]
  have a: "parse_row one_cell_row = None"
    by blast
  from s2 row_extraction [where r = heading_row and ?td0.0 = "[0xC9C0, 0xC5ED, 0xBA85]"
      and ?td1.0 = "[0x41]" and others = "[]"]
  have b: "parse_row heading_row = None"
    by blast
  from s3 ne row_extraction [where r = padded_row
      and ?td0.0 = "[0x20, 0xAC15, 0xB0A8, 0xAD6C, 0x0A]" and ?td1.0 = "[0x31]"
      and others = "[]" and x = "[0xC218, 0xCD95, 0x2B, 0x32, 0xB2E8, 0xACC4]"
      and y = "[0x2191]" and zs = "[]"]
  have c: "parse_row padded_row =
       Some ([0xAC15, 0xB0A8, 0xAD6C],
             \<lparr>weather = [0xC218, 0xCD95, 0x2B, 0x32, 0xB2E8, 0xACC4], mom = [0x2191]\<rparr>)"
    by simp
  from s4 ne row_extraction [where r = single_icon_row
      and ?td0.0 = "[0xAC15, 0xB0A8, 0xAD6C]" and ?td1.0 = "[0x31]"
      and others = "[]" and x = "[0xC218, 0xCD95, 0x2B, 0x32, 0xB2E8, 0xACC4]"]
  have d: "parse_row single_icon_row =
       Some ([0xAC15, 0xB0A8, 0xAD6C],
             \<lparr>weather = [0xC218, 0xCD95, 0x2B, 0x32, 0xB2E8, 0xACC4], mom = []\<rparr>)"
    by simp
  from s4(2) s5 ne row_extraction [where r = no_icon_row
      and ?td0.0 = "[0xAC15, 0xB0A8, 0xAD6C]" and ?td1.0 = "[0x31]" and others = "[]"]
  have e: "parse_row no_icon_row = Some ([0xAC15, 0xB0A8, 0xAD6C], \<lparr>weather = [], mom = []\<rparr>)"
    by simp
  from s1 s2 s3 s4 s5 a b c d e show ?thesis by blast
qed

end
